theory Spec2Isabelle
  imports Complex_Main
begin

section \<open>Geometric primitives (MeshData.h)\<close>

text \<open>
  \<^verbatim>\<open>struct Point3D { double x, y, z; ... }\<close>.  The record is polymorphic in the
  coordinate type: the parser only stores coordinates and never computes with them, so
  everything proved about it holds for any representation of \<^verbatim>\<open>double\<close>.  The
  bounding box compares coordinates; there the finite doubles are read as the reals
  they denote (comparison, \<^verbatim>\<open>std::min\<close> and \<^verbatim>\<open>std::max\<close> do not round).
\<close>

record 'd Point3D =
  x :: 'd
  y :: 'd
  z :: 'd

text \<open>\<^verbatim>\<open>Point3D() : x(0.0), y(0.0), z(0.0)\<close>\<close>

definition Point3D_default :: "('d::zero) Point3D" where
  "Point3D_default = \<lparr>x = 0, y = 0, z = 0\<rparr>"

text \<open>
  \<^verbatim>\<open>struct Triangle { std::array<Point3D, 3> vertices; }\<close> with the constructor
  \<^verbatim>\<open>Triangle(v1, v2, v3) : vertices{v1, v2, v3}\<close>.
\<close>

datatype 'd Triangle = Triangle "'d Point3D" "'d Point3D" "'d Point3D"

text \<open>
  \<^verbatim>\<open>std::min(a, b)\<close> is \<^verbatim>\<open>(b < a) ? b : a\<close> and \<^verbatim>\<open>std::max(a, b)\<close> is
  \<^verbatim>\<open>(a < b) ? b : a\<close>.
\<close>

definition std_min :: "real \<Rightarrow> real \<Rightarrow> real" where
  "std_min a b = (if b < a then b else a)"

definition std_max :: "real \<Rightarrow> real \<Rightarrow> real" where
  "std_max a b = (if a < b then b else a)"

text \<open>
  \<^verbatim>\<open>std::numeric_limits<double>::max()\<close> of IEEE 754 binary64, which is
  \<^verbatim>\<open>(2 - 2^-52) * 2^1023\<close>, and \<^verbatim>\<open>lowest()\<close>, its negation.
\<close>

definition DBL_MAX :: real where
  "DBL_MAX = 2 ^ 1024 - 2 ^ 971"

definition DBL_LOWEST :: real where
  "DBL_LOWEST = - DBL_MAX"

text \<open>A finite double: a real between \<^verbatim>\<open>lowest()\<close> and \<^verbatim>\<open>max()\<close>.\<close>

definition finite_double :: "real \<Rightarrow> bool" where
  "finite_double v \<longleftrightarrow> DBL_LOWEST \<le> v \<and> v \<le> DBL_MAX"

definition finite_point :: "real Point3D \<Rightarrow> bool" where
  "finite_point p \<longleftrightarrow> finite_double (x p) \<and> finite_double (y p) \<and> finite_double (z p)"

text \<open>\<^verbatim>\<open>struct BoundingBox { Point3D min, max; ... }\<close>\<close>

record BoundingBox =
  bbox_min :: "real Point3D"
  bbox_max :: "real Point3D"

definition BoundingBox_default :: BoundingBox where
  "BoundingBox_default =
     \<lparr>bbox_min = \<lparr>x = DBL_MAX, y = DBL_MAX, z = DBL_MAX\<rparr>,
      bbox_max = \<lparr>x = DBL_LOWEST, y = DBL_LOWEST, z = DBL_LOWEST\<rparr>\<rparr>"

definition expand :: "BoundingBox \<Rightarrow> real Point3D \<Rightarrow> BoundingBox" where
  "expand b point =
     \<lparr>bbox_min = \<lparr>x = std_min (x (bbox_min b)) (x point),
                  y = std_min (y (bbox_min b)) (y point),
                  z = std_min (z (bbox_min b)) (z point)\<rparr>,
      bbox_max = \<lparr>x = std_max (x (bbox_max b)) (x point),
                  y = std_max (y (bbox_max b)) (y point),
                  z = std_max (z (bbox_max b)) (z point)\<rparr>\<rparr>"

definition isEmpty :: "BoundingBox \<Rightarrow> bool" where
  "isEmpty b \<longleftrightarrow>
     x (bbox_min b) > x (bbox_max b) \<or> y (bbox_min b) > y (bbox_max b)
       \<or> z (bbox_min b) > z (bbox_max b)"

text \<open>
  \<^verbatim>\<open>class MeshData { std::vector<Triangle> triangles; ... }\<close> with \<^verbatim>\<open>addTriangle\<close>,
  \<^verbatim>\<open>getTriangleCount\<close> and \<^verbatim>\<open>isEmpty\<close>.
\<close>

record 'd MeshData =
  triangles :: "'d Triangle list"

definition MeshData_default :: "'d MeshData" where
  "MeshData_default = \<lparr>triangles = []\<rparr>"

definition addTriangle :: "'d MeshData \<Rightarrow> 'd Triangle \<Rightarrow> 'd MeshData" where
  "addTriangle m t = m\<lparr>triangles := triangles m @ [t]\<rparr>"

definition getTriangleCount :: "'d MeshData \<Rightarrow> nat" where
  "getTriangleCount m = length (triangles m)"

definition MeshData_isEmpty :: "'d MeshData \<Rightarrow> bool" where
  "MeshData_isEmpty m \<longleftrightarrow> triangles m = []"

section \<open>The library's integer reader\<close>

text \<open>
  \<^verbatim>\<open>std::stoi(str)\<close> with base 10, as the C++ standard defines it through
  \<^verbatim>\<open>strtol\<close>: leading white space is skipped, an optional sign is read, then the
  longest run of decimal digits; what follows the digits is ignored.  No digit:
  \<^verbatim>\<open>std::invalid_argument\<close>.  A value outside the range of a 32-bit \<^verbatim>\<open>int\<close>:
  \<^verbatim>\<open>std::out_of_range\<close>.  Both derive from \<^verbatim>\<open>std::exception\<close>, which is all the
  parser's handlers look at, so both are \<open>None\<close> here.
\<close>

definition isspace :: "char \<Rightarrow> bool" where
  "isspace c \<longleftrightarrow> c = CHR 0x20 \<or> c = CHR 0x09 \<or> c = CHR 0x0A \<or> c = CHR 0x0B
     \<or> c = CHR 0x0C \<or> c = CHR 0x0D"

definition isdigit :: "char \<Rightarrow> bool" where
  "isdigit c \<longleftrightarrow> (48::nat) \<le> of_char c \<and> (of_char c :: nat) \<le> 57"

definition digit_value :: "char \<Rightarrow> int" where
  "digit_value c = int (of_char c) - 48"

definition digits_value :: "string \<Rightarrow> int" where
  "digits_value ds = foldl (\<lambda>acc c. acc * 10 + digit_value c) 0 ds"

definition INT_MAX :: int where
  "INT_MAX = 2147483647"

definition INT_MIN :: int where
  "INT_MIN = - 2147483648"

fun strip_sign :: "string \<Rightarrow> bool \<times> string" where
  "strip_sign [] = (False, [])"
| "strip_sign (c # cs) =
     (if c = CHR ''-'' then (True, cs)
      else if c = CHR ''+'' then (False, cs)
      else (False, c # cs))"

definition stoi :: "string \<Rightarrow> int option" where
  "stoi str =
     (case strip_sign (dropWhile isspace str) of
        (neg, rest) \<Rightarrow>
          (let ds = takeWhile isdigit rest in
           if ds = [] then None
           else
             (let v = (if neg then - digits_value ds else digits_value ds) in
              if v < INT_MIN \<or> INT_MAX < v then None else Some v)))"

section \<open>The 3DFACE parser (DXFReader::parse3DFaceFromLines)\<close>

text \<open>
  The locals of the subroutine: the cursor \<^verbatim>\<open>index\<close> (a reference parameter),
  \<^verbatim>\<open>Point3D vertices[3]\<close> and \<^verbatim>\<open>bool hasVertex[3]\<close>.
\<close>

record 'd face_state =
  index :: nat
  vertices :: "'d Point3D list"
  hasVertex :: "bool list"

text \<open>
  \<^verbatim>\<open>std::stod\<close> is a parameter \<open>stod\<close> of the parser: \<open>None\<close> when the library
  function throws.  \<^verbatim>\<open>try { vertices[k].x = std::stod(value); hasVertex[k] = true; }
  catch (const std::exception&) { vertices[k].x = 0.0; }\<close> and the two sibling cases,
  which set no flag.
\<close>

definition assign_x :: "(string \<Rightarrow> ('d::zero) option) \<Rightarrow> 'd face_state \<Rightarrow> nat \<Rightarrow> string \<Rightarrow> 'd face_state" where
  "assign_x stod st vertexIndex val =
     (case stod val of
        Some d \<Rightarrow> st\<lparr>vertices := (vertices st)[vertexIndex := (vertices st ! vertexIndex)\<lparr>x := d\<rparr>],
                     hasVertex := (hasVertex st)[vertexIndex := True]\<rparr>
      | None \<Rightarrow> st\<lparr>vertices := (vertices st)[vertexIndex := (vertices st ! vertexIndex)\<lparr>x := 0\<rparr>]\<rparr>)"

definition assign_y :: "(string \<Rightarrow> ('d::zero) option) \<Rightarrow> 'd face_state \<Rightarrow> nat \<Rightarrow> string \<Rightarrow> 'd face_state" where
  "assign_y stod st vertexIndex val =
     (case stod val of
        Some d \<Rightarrow> st\<lparr>vertices := (vertices st)[vertexIndex := (vertices st ! vertexIndex)\<lparr>y := d\<rparr>]\<rparr>
      | None \<Rightarrow> st\<lparr>vertices := (vertices st)[vertexIndex := (vertices st ! vertexIndex)\<lparr>y := 0\<rparr>]\<rparr>)"

definition assign_z :: "(string \<Rightarrow> ('d::zero) option) \<Rightarrow> 'd face_state \<Rightarrow> nat \<Rightarrow> string \<Rightarrow> 'd face_state" where
  "assign_z stod st vertexIndex val =
     (case stod val of
        Some d \<Rightarrow> st\<lparr>vertices := (vertices st)[vertexIndex := (vertices st ! vertexIndex)\<lparr>z := d\<rparr>]\<rparr>
      | None \<Rightarrow> st\<lparr>vertices := (vertices st)[vertexIndex := (vertices st ! vertexIndex)\<lparr>z := 0\<rparr>]\<rparr>)"

text \<open>The \<^verbatim>\<open>switch (code)\<close>: nine cases, no default.\<close>

definition switch_code :: "(string \<Rightarrow> ('d::zero) option) \<Rightarrow> 'd face_state \<Rightarrow> int \<Rightarrow> string \<Rightarrow> 'd face_state" where
  "switch_code stod st code val =
     (if code = 10 \<or> code = 11 \<or> code = 12 then assign_x stod st (nat (code - 10)) val
      else if code = 20 \<or> code = 21 \<or> code = 22 then assign_y stod st (nat (code - 20)) val
      else if code = 30 \<or> code = 31 \<or> code = 32 then assign_z stod st (nat (code - 30)) val
      else st)"

text \<open>
  One iteration of \<^verbatim>\<open>while (index < lines.size())\<close>, entered with
  \<open>index st < length lines\<close>; \<open>None\<close> is a \<^verbatim>\<open>break\<close>.
\<close>

definition face_body :: "(string \<Rightarrow> ('d::zero) option) \<Rightarrow> string list \<Rightarrow> 'd face_state \<Rightarrow> 'd face_state option" where
  "face_body stod lines st =
     (if lines ! index st = ''0'' then None
      else
        (case stoi (lines ! index st) of
           None \<Rightarrow> Some (st\<lparr>index := index st + 1\<rparr>)
         | Some code \<Rightarrow>
             if index st + 1 \<ge> length lines then None
             else Some ((switch_code stod st code (lines ! (index st + 1)))
                          \<lparr>index := index st + 2\<rparr>)))"

lemma face_body_index: "face_body stod lines st = Some st' \<Longrightarrow> index st < index st'"
  by (auto simp: face_body_def switch_code_def assign_x_def assign_y_def assign_z_def
      split: if_splits option.splits)

function face_loop :: "(string \<Rightarrow> ('d::zero) option) \<Rightarrow> string list \<Rightarrow> 'd face_state \<Rightarrow> 'd face_state" where
  "face_loop stod lines st =
     (if index st < length lines then
        (case face_body stod lines st of
           None \<Rightarrow> st
         | Some st' \<Rightarrow> face_loop stod lines st')
      else st)"
  by pat_completeness auto
termination
  by (relation "measure (\<lambda>(stod, lines, st). length lines - index st)")
     (auto dest: face_body_index)

declare face_loop.simps [simp del]

definition face_init :: "nat \<Rightarrow> ('d::zero) face_state" where
  "face_init index0 =
     \<lparr>index = index0, vertices = replicate 3 Point3D_default, hasVertex = replicate 3 False\<rparr>"

text \<open>
  The subroutine returns the cursor it leaves in \<^verbatim>\<open>index\<close> and, when it returns
  \<^verbatim>\<open>true\<close>, the triangle it has assigned.
\<close>

definition parse3DFaceFromLines :: "(string \<Rightarrow> ('d::zero) option) \<Rightarrow> string list \<Rightarrow> nat \<Rightarrow> nat \<times> 'd Triangle option" where
  "parse3DFaceFromLines stod lines index0 =
     (let st = face_loop stod lines (face_init index0) in
      (index st,
       if hasVertex st ! 0 \<and> hasVertex st ! 1 \<and> hasVertex st ! 2
       then Some (Triangle (vertices st ! 0) (vertices st ! 1) (vertices st ! 2))
       else None))"

lemma face_loop_index: "index st \<le> index (face_loop stod lines st)"
proof (induction stod lines st rule: face_loop.induct)
  case (1 stod lines st)
  show ?case
  proof (cases "index st < length lines")
    case True
    then show ?thesis
      using "1.IH" face_body_index [of stod lines st]
      by (subst face_loop.simps) (auto split: option.splits simp: less_imp_le dest: order_trans)
  next
    case False
    then show ?thesis
      by (subst face_loop.simps) simp
  qed
qed

lemma parse3DFaceFromLines_index: "index0 \<le> fst (parse3DFaceFromLines stod lines index0)"
  using face_loop_index [of "face_init index0" stod lines]
  by (simp add: parse3DFaceFromLines_def Let_def face_init_def)

section \<open>The reader (DXFReader::readFile, DXFReader::parseFile)\<close>

text \<open>
  What the progress callback, a \<^verbatim>\<open>std::function<void(double)>\<close>, may throw: an
  exception derived from \<^verbatim>\<open>std::exception\<close>, which the handler around the scan
  catches, or anything else.
\<close>

datatype thrown = StdException | OtherException

text \<open>
  \<^verbatim>\<open>DXFReaderException\<close> carries a message only; the five messages the reader throws
  are the five error kinds: "File does not exist", "Path is not a regular file",
  "Cannot open file", "Parse error" and "No 3D faces found in DXF file".  A read can
  also end with an exception of the callback that no handler of the reader catches.
\<close>

datatype error = FileNotFound | NotARegularFile | CannotOpenFile | ParseError | NoEntitiesFound
  | CallbackException thrown

text \<open>
  What the file system answers for a path: \<^verbatim>\<open>std::filesystem::exists\<close>,
  \<^verbatim>\<open>is_regular_file\<close>, whether the \<^verbatim>\<open>std::ifstream\<close> opens and, when it does,
  \<^verbatim>\<open>file_size\<close> and the lines \<^verbatim>\<open>std::getline\<close> delivers.
\<close>

record file_content =
  fileSize :: nat
  rawLines :: "string list"

datatype path_status = DoesNotExist | NotRegular | CannotOpen | Opens file_content

text \<open>
  The reader's two fields, \<^verbatim>\<open>progressCallback_\<close> and \<^verbatim>\<open>lastEntityCount_\<close> (named
  here without the trailing underscore).  The callback is \<open>None\<close> when none is set.
  A callback that is set is given by what a call does: from the values of the calls
  made before, oldest first, and the value of this call, it returns (\<open>None\<close>) or throws.
  The counter is a \<^verbatim>\<open>size_t\<close> that never exceeds the number of lines, so it is a
  \<open>nat\<close>.
\<close>

record DXFReader =
  progressCallback :: "(real list \<Rightarrow> real \<Rightarrow> thrown option) option"
  lastEntityCount :: nat

definition getLastEntityCount :: "DXFReader \<Rightarrow> nat" where
  "getLastEntityCount rd = lastEntityCount rd"

text \<open>
  \<^verbatim>\<open>if (progressCallback_) progressCallback_(std::max(0.0, std::min(1.0, progress)))\<close>:
  the calls made so far with this one added, and what the call threw.
\<close>

definition reportProgress :: "(real list \<Rightarrow> real \<Rightarrow> thrown option) option \<Rightarrow> real \<Rightarrow> real list \<Rightarrow> real list \<times> thrown option" where
  "reportProgress callback progress calls =
     (case callback of
        None \<Rightarrow> (calls, None)
      | Some f \<Rightarrow>
          (calls @ [std_max 0 (std_min 1 progress)],
           f calls (std_max 0 (std_min 1 progress))))"

text \<open>
  \<^verbatim>\<open>line.erase(line.find_last_not_of(" \t\r\n") + 1);
  line.erase(0, line.find_first_not_of(" \t"));\<close>
\<close>

definition trim_line :: "string \<Rightarrow> string" where
  "trim_line line =
     dropWhile (\<lambda>c. c = CHR 0x20 \<or> c = CHR 0x09)
       (rev (dropWhile (\<lambda>c. c = CHR 0x20 \<or> c = CHR 0x09 \<or> c = CHR 0x0D \<or> c = CHR 0x0A)
          (rev line)))"

text \<open>
  The variables of the scan: \<^verbatim>\<open>inEntitiesSection\<close>, the cursor \<^verbatim>\<open>i\<close>,
  \<^verbatim>\<open>meshData\<close>, the reader's \<^verbatim>\<open>lastEntityCount_\<close> while the scan runs
  (\<open>entityCount\<close>), the calls made to the progress callback so far, and the exception
  the callback has thrown, if it has: it ends the loop.
\<close>

record 'd scan_state =
  inEntitiesSection :: bool
  cursor :: nat
  meshData :: "'d MeshData"
  entityCount :: nat
  reported :: "real list"
  raised :: "thrown option"

text \<open>
  What the scan does with a face the subroutine has parsed:
  \<^verbatim>\<open>meshData->addTriangle(triangle); lastEntityCount_++;\<close>, the progress report at
  every hundredth face of a file that is not empty, and \<^verbatim>\<open>i = nextEntityIndex\<close>.
  The quotient of the report is the exact one.  When the callback throws, the triangle
  has been added and counted, and the assignment to \<^verbatim>\<open>i\<close> is not reached.
\<close>

definition emit_triangle :: "(real list \<Rightarrow> real \<Rightarrow> thrown option) option \<Rightarrow> nat \<Rightarrow> string list \<Rightarrow> 'd scan_state \<Rightarrow> nat \<Rightarrow> 'd Triangle \<Rightarrow> 'd scan_state" where
  "emit_triangle callback file_size lines s nextEntityIndex triangle =
     (let counted = s\<lparr>meshData := addTriangle (meshData s) triangle,
                      entityCount := entityCount s + 1\<rparr>
      in if (entityCount s + 1) mod 100 = 0 \<and> file_size > 0 then
           (case reportProgress callback
                   (real nextEntityIndex / real (length lines)) (reported s) of
              (calls, None) \<Rightarrow> counted\<lparr>reported := calls, cursor := nextEntityIndex\<rparr>
            | (calls, Some e) \<Rightarrow> counted\<lparr>reported := calls, raised := Some e\<rparr>)
         else counted\<lparr>cursor := nextEntityIndex\<rparr>)"

text \<open>
  One iteration of \<^verbatim>\<open>while (i < lines.size())\<close>, entered with
  \<open>cursor s < length lines\<close>.
\<close>

definition scan_body :: "(string \<Rightarrow> ('d::zero) option) \<Rightarrow> (real list \<Rightarrow> real \<Rightarrow> thrown option) option \<Rightarrow> nat \<Rightarrow> string list \<Rightarrow> 'd scan_state \<Rightarrow> 'd scan_state" where
  "scan_body stod callback file_size lines s =
     (if lines ! cursor s = ''0'' \<and> cursor s + 1 < length lines then
        (let entityType = lines ! (cursor s + 1) in
         if entityType = ''SECTION'' \<and> cursor s + 3 < length lines then
           (if lines ! (cursor s + 2) = ''2'' \<and> lines ! (cursor s + 3) = ''ENTITIES''
            then s\<lparr>inEntitiesSection := True, cursor := cursor s + 4\<rparr>
            else s\<lparr>cursor := cursor s + 1\<rparr>)
         else if entityType = ''ENDSEC'' then
           s\<lparr>inEntitiesSection := False, cursor := cursor s + 2\<rparr>
         else if inEntitiesSection s \<and> entityType = ''3DFACE'' then
           (case parse3DFaceFromLines stod lines (cursor s + 2) of
              (nextEntityIndex, Some triangle) \<Rightarrow>
                emit_triangle callback file_size lines s nextEntityIndex triangle
            | (nextEntityIndex, None) \<Rightarrow> s\<lparr>cursor := nextEntityIndex\<rparr>)
         else s\<lparr>cursor := cursor s + 1\<rparr>)
      else s\<lparr>cursor := cursor s + 1\<rparr>)"

lemma scan_body_cursor:
  "raised (scan_body stod callback file_size lines s) = None \<Longrightarrow>
   cursor s < cursor (scan_body stod callback file_size lines s)"
proof -
  have "cursor s + 2 \<le> fst (parse3DFaceFromLines stod lines (cursor s + 2))"
    by (rule parse3DFaceFromLines_index)
  then show "raised (scan_body stod callback file_size lines s) = None \<Longrightarrow> ?thesis"
    by (auto simp: scan_body_def emit_triangle_def Let_def split: prod.splits option.splits if_splits)
qed

lemma scan_body_raised:
  "raised (scan_body stod callback file_size lines s) = raised s
   \<or> (\<exists>e. raised (scan_body stod callback file_size lines s) = Some e)"
  by (auto simp: scan_body_def emit_triangle_def Let_def split: prod.splits option.splits)

text \<open>
  The loop is left when the cursor has passed the last line or the callback has
  thrown.
\<close>

function scan_loop :: "(string \<Rightarrow> ('d::zero) option) \<Rightarrow> (real list \<Rightarrow> real \<Rightarrow> thrown option) option \<Rightarrow> nat \<Rightarrow> string list \<Rightarrow> 'd scan_state \<Rightarrow> 'd scan_state" where
  "scan_loop stod callback file_size lines s =
     (if cursor s < length lines \<and> raised s = None
      then scan_loop stod callback file_size lines (scan_body stod callback file_size lines s)
      else s)"
  by pat_completeness auto
termination
proof (relation "measure (\<lambda>(stod, callback, file_size, lines, s).
          if raised s = None then length lines - cursor s + 1 else 0)", goal_cases)
  case 1
  show ?case by simp
next
  case (2 stod callback file_size lines s)
  then have c: "cursor s < length lines" and r: "raised s = None"
    by simp_all
  show ?case
  proof (cases "raised (scan_body stod callback file_size lines s)")
    case None
    then have "cursor s < cursor (scan_body stod callback file_size lines s)"
      by (rule scan_body_cursor)
    with c r None show ?thesis
      by simp
  next
    case (Some e)
    with r show ?thesis
      by simp
  qed
qed

declare scan_loop.simps [simp del]

lemma scan_loop_done:
  "\<not> (cursor s < length lines \<and> raised s = None) \<Longrightarrow>
   scan_loop stod callback file_size lines s = s"
  by (subst scan_loop.simps) (rule if_not_P)

lemma scan_loop_step:
  "cursor s < length lines \<and> raised s = None \<Longrightarrow>
   scan_loop stod callback file_size lines s
     = scan_loop stod callback file_size lines (scan_body stod callback file_size lines s)"
  by (subst scan_loop.simps) (rule if_P)

text \<open>
  The state before the loop: \<^verbatim>\<open>std::make_unique<MeshData>()\<close>,
  \<^verbatim>\<open>lastEntityCount_ = 0\<close>, \<^verbatim>\<open>inEntitiesSection = false\<close>, \<^verbatim>\<open>i = 0\<close>.
\<close>

definition scan_init :: "'d scan_state" where
  "scan_init =
     \<lparr>inEntitiesSection = False, cursor = 0, meshData = MeshData_default,
      entityCount = 0, reported = [], raised = None\<rparr>"

text \<open>
  \<^verbatim>\<open>parseFile\<close> returns the reader as it leaves it, the calls it made to the progress
  callback, and the mesh or the exception.  A stream that does not open throws before
  \<^verbatim>\<open>lastEntityCount_\<close> is reset.  The scan runs inside
  \<^verbatim>\<open>try { ... } catch (const std::exception& e) { throw DXFReaderException("Parse error: " ...); }\<close>:
  an exception of the callback that derives from \<^verbatim>\<open>std::exception\<close> becomes "Parse
  error", any other leaves the reader as it is.  The last call,
  \<^verbatim>\<open>reportProgress(1.0)\<close>, stands after the handler and before the test for an empty
  mesh: what the callback throws there leaves the reader as it is.
\<close>

definition parseFile :: "(string \<Rightarrow> ('d::zero) option) \<Rightarrow> DXFReader \<Rightarrow> path_status \<Rightarrow> DXFReader \<times> real list \<times> (error + 'd MeshData)" where
  "parseFile stod rd path =
     (case path of
        Opens file \<Rightarrow>
          (let lines = map trim_line (rawLines file);
               s = scan_loop stod (progressCallback rd) (fileSize file) lines scan_init;
               rd' = rd\<lparr>lastEntityCount := entityCount s\<rparr>
           in case raised s of
                Some StdException \<Rightarrow> (rd', reported s, Inl ParseError)
              | Some OtherException \<Rightarrow> (rd', reported s, Inl (CallbackException OtherException))
              | None \<Rightarrow>
                  (case reportProgress (progressCallback rd) 1 (reported s) of
                     (calls, Some e) \<Rightarrow> (rd', calls, Inl (CallbackException e))
                   | (calls, None) \<Rightarrow>
                       if MeshData_isEmpty (meshData s) then (rd', calls, Inl NoEntitiesFound)
                       else (rd', calls, Inr (meshData s))))
      | _ \<Rightarrow> (rd, [], Inl CannotOpenFile))"

definition readFile :: "(string \<Rightarrow> ('d::zero) option) \<Rightarrow> DXFReader \<Rightarrow> path_status \<Rightarrow> DXFReader \<times> real list \<times> (error + 'd MeshData)" where
  "readFile stod rd path =
     (case path of
        DoesNotExist \<Rightarrow> (rd, [], Inl FileNotFound)
      | NotRegular \<Rightarrow> (rd, [], Inl NotARegularFile)
      | _ \<Rightarrow> parseFile stod rd path)"

text \<open>No callback is set, or the one that is set returns from every call.\<close>

definition never_throws :: "(real list \<Rightarrow> real \<Rightarrow> thrown option) option \<Rightarrow> bool" where
  "never_throws callback \<longleftrightarrow>
     (case callback of None \<Rightarrow> True | Some f \<Rightarrow> \<forall>calls v. f calls v = None)"

text \<open>The state the scan of an opened file ends in.\<close>

definition scan_file :: "(string \<Rightarrow> ('d::zero) option) \<Rightarrow> DXFReader \<Rightarrow> file_content \<Rightarrow> 'd scan_state" where
  "scan_file stod rd file =
     scan_loop stod (progressCallback rd) (fileSize file) (map trim_line (rawLines file)) scan_init"

text \<open>
  What the scan keeps true of the calls made so far, as long as none of them has thrown:
  they are ordered, not negative, and none exceeds the clamped quotient of the cursor and
  the number of lines.
\<close>

definition progress_inv :: "string list \<Rightarrow> 'd scan_state \<Rightarrow> bool" where
  "progress_inv lines s \<longleftrightarrow>
     sorted (reported s)
     \<and> list_all (\<lambda>v. 0 \<le> v \<and> v \<le> std_max 0 (std_min 1 (real (cursor s) / real (length lines))))
         (reported s)"

section \<open>What the face parser reads, in the words of the specification\<close>

text \<open>
  The (group code, value) pairs the subroutine consumes from line \<open>i\<close> on: it stops at
  a line equal to \<^verbatim>\<open>0\<close> or when the lines run out, and a line that is no integer is
  skipped alone.
\<close>

function face_pairs :: "string list \<Rightarrow> nat \<Rightarrow> (int \<times> string) list" where
  "face_pairs lines i =
     (if i < length lines then
        (if lines ! i = ''0'' then []
         else
           (case stoi (lines ! i) of
              None \<Rightarrow> face_pairs lines (i + 1)
            | Some code \<Rightarrow>
                if i + 1 \<ge> length lines then []
                else (code, lines ! (i + 1)) # face_pairs lines (i + 2)))
      else [])"
  by pat_completeness auto
termination
  by (relation "measure (\<lambda>(lines, i). length lines - i)") auto

declare face_pairs.simps [simp del]

text \<open>
  The values paired with one group code, in file order; the coordinate they leave in
  the buffer (the last one, or \<open>0\<close> when it does not parse or there is none); whether
  vertex \<open>k\<close> counts as populated (some value paired with its x code parses); and the
  triangle the pairs stand for.
\<close>

definition values_for :: "(int \<times> string) list \<Rightarrow> int \<Rightarrow> string list" where
  "values_for pairs code = map snd (filter (\<lambda>p. fst p = code) pairs)"

definition coord :: "(string \<Rightarrow> ('d::zero) option) \<Rightarrow> (int \<times> string) list \<Rightarrow> int \<Rightarrow> 'd" where
  "coord stod pairs code =
     (case rev (values_for pairs code) of
        [] \<Rightarrow> 0
      | v # _ \<Rightarrow> (case stod v of Some d \<Rightarrow> d | None \<Rightarrow> 0))"

definition populated :: "(string \<Rightarrow> 'd option) \<Rightarrow> (int \<times> string) list \<Rightarrow> nat \<Rightarrow> bool" where
  "populated stod pairs k \<longleftrightarrow> list_ex (\<lambda>v. stod v \<noteq> None) (values_for pairs (10 + int k))"

definition buffered_vertex :: "(string \<Rightarrow> ('d::zero) option) \<Rightarrow> (int \<times> string) list \<Rightarrow> nat \<Rightarrow> 'd Point3D" where
  "buffered_vertex stod pairs k =
     \<lparr>x = coord stod pairs (10 + int k), y = coord stod pairs (20 + int k),
      z = coord stod pairs (30 + int k)\<rparr>"

definition triangle_of_pairs :: "(string \<Rightarrow> ('d::zero) option) \<Rightarrow> (int \<times> string) list \<Rightarrow> 'd Triangle option" where
  "triangle_of_pairs stod pairs =
     (if populated stod pairs 0 \<and> populated stod pairs 1 \<and> populated stod pairs 2
      then Some (Triangle (buffered_vertex stod pairs 0) (buffered_vertex stod pairs 1)
                   (buffered_vertex stod pairs 2))
      else None)"

text \<open>The buffers after a list of pairs, by the code's own \<^verbatim>\<open>switch\<close>.\<close>

definition store_pairs :: "(string \<Rightarrow> ('d::zero) option) \<Rightarrow> 'd face_state \<Rightarrow> (int \<times> string) list \<Rightarrow> 'd face_state" where
  "store_pairs stod st pairs = foldl (\<lambda>s p. switch_code stod s (fst p) (snd p)) st pairs"

text \<open>The buffers agree with the pairs read so far.\<close>

definition face_inv :: "(string \<Rightarrow> ('d::zero) option) \<Rightarrow> (int \<times> string) list \<Rightarrow> 'd face_state \<Rightarrow> bool" where
  "face_inv stod pairs st \<longleftrightarrow>
     length (vertices st) = 3 \<and> length (hasVertex st) = 3
     \<and> (\<forall>k<3. hasVertex st ! k = populated stod pairs k
              \<and> vertices st ! k = buffered_vertex stod pairs k)"

section \<open>The markers of the scan, in the words of the specification\<close>

text \<open>
  The four lines that open the ENTITIES section, the two lines that end a section and
  the two lines that start a 3DFACE entity, at line \<open>i\<close>.
\<close>

definition section_entities_at :: "string list \<Rightarrow> nat \<Rightarrow> bool" where
  "section_entities_at lines i \<longleftrightarrow>
     i + 3 < length lines \<and> lines ! i = ''0'' \<and> lines ! (i + 1) = ''SECTION''
     \<and> lines ! (i + 2) = ''2'' \<and> lines ! (i + 3) = ''ENTITIES''"

definition endsec_at :: "string list \<Rightarrow> nat \<Rightarrow> bool" where
  "endsec_at lines i \<longleftrightarrow> i + 1 < length lines \<and> lines ! i = ''0'' \<and> lines ! (i + 1) = ''ENDSEC''"

definition face_marker_at :: "string list \<Rightarrow> nat \<Rightarrow> bool" where
  "face_marker_at lines i \<longleftrightarrow> i + 1 < length lines \<and> lines ! i = ''0'' \<and> lines ! (i + 1) = ''3DFACE''"

section \<open>The loops with an iteration budget\<close>



section \<open>Concrete inputs\<close>

text \<open>
  The theorems below hold for every \<open>stod\<close>.  The concrete runs need one: a reader of
  plain decimal literals (white space, an optional sign, digits, an optional fraction;
  no exponent, no \<^verbatim>\<open>inf\<close> or \<^verbatim>\<open>nan\<close>), returning the real number the literal denotes.
\<close>

definition stod_plain :: "string \<Rightarrow> real option" where
  "stod_plain str =
     (case strip_sign (dropWhile isspace str) of
        (neg, rest) \<Rightarrow>
          (let ip = takeWhile isdigit rest;
               fp = (case dropWhile isdigit rest of
                       [] \<Rightarrow> []
                     | c # cs \<Rightarrow> if c = CHR ''.'' then takeWhile isdigit cs else [])
           in if ip = [] \<and> fp = [] then None
              else
                (let m = real_of_int (digits_value ip)
                           + real_of_int (digits_value fp) / 10 ^ length fp
                 in Some (if neg then - m else m))))"

text \<open>
  Two callbacks: one that returns from every call, and one that throws a
  \<^verbatim>\<open>std::runtime_error\<close> from every call, as a caller does who wants the read to stop.
\<close>

definition silent_callback :: "real list \<Rightarrow> real \<Rightarrow> thrown option" where
  "silent_callback calls v = None"

definition throwing_callback :: "real list \<Rightarrow> real \<Rightarrow> thrown option" where
  "throwing_callback calls v = Some StdException"

text \<open>A face whose third vertex has an x value that is no number.\<close>

definition malformed_face :: "string list" where
  "malformed_face = [''0'', ''3DFACE'', ''10'', ''1'', ''11'', ''5'', ''12'', ''x'', ''0'', ''EOF'']"

text \<open>
  A face with a stray line and a second x value for vertex 0 that is no number, and
  the locals of the subroutine after its first pair.
\<close>

definition garbled_face :: "string list" where
  "garbled_face = [''10'', ''7'', ''junk'', ''10'', ''x'', ''0'']"

definition garbled_state :: "nat \<Rightarrow> real face_state" where
  "garbled_state i =
     \<lparr>index = i, vertices = [\<lparr>x = 7, y = 0, z = 0\<rparr>, Point3D_default, Point3D_default],
      hasVertex = [True, False, False]\<rparr>"

text \<open>A well-formed face that no ENTITIES section encloses.\<close>

definition face_outside_section :: "string list" where
  "face_outside_section =
     [''0'', ''3DFACE'', ''10'', ''1'', ''11'', ''5'', ''12'', ''7'', ''0'', ''EOF'']"

text \<open>
  A file with two faces, the first with a layer pair (\<^verbatim>\<open>8\<close>, \<^verbatim>\<open>0\<close>) and the second
  with a fourth vertex, as CAD programs write them.
\<close>

definition two_triangles :: "string list" where
  "two_triangles =
     [''0'', ''SECTION'', ''2'', ''ENTITIES'',
      ''0'', ''3DFACE'', ''8'', ''0'',
      ''10'', ''0.0'', ''20'', ''0.0'', ''30'', ''0.0'',
      ''11'', ''10.0'', ''21'', ''0.0'', ''31'', ''0.0'',
      ''12'', ''5.0'', ''22'', ''8.5'', ''32'', ''0.0'',
      ''0'', ''3DFACE'',
      ''10'', ''1'', ''20'', ''2'', ''30'', ''3'',
      ''11'', ''4'', ''21'', ''5'', ''31'', ''6'',
      ''12'', ''7'', ''22'', ''8'', ''32'', ''9'',
      ''13'', ''7'', ''23'', ''8'', ''33'', ''9'',
      ''0'', ''ENDSEC'', ''0'', ''EOF'']"

text \<open>
  A scan of that file about to read its first face, with 99 faces counted before and
  one progress call made.
\<close>

definition ninety_nine_counted :: "real scan_state" where
  "ninety_nine_counted =
     \<lparr>inEntitiesSection = True, cursor = 4, meshData = MeshData_default,
      entityCount = 99, reported = [1 / 28], raised = None\<rparr>"

text \<open>
  The same file as \<^verbatim>\<open>std::getline\<close> delivers it when it was written with leading
  blanks and CRLF line ends.
\<close>

definition two_triangles_crlf :: "string list" where
  "two_triangles_crlf = map (\<lambda>l. ''  '' @ l @ [CHR 0x0D]) two_triangles"

section \<open>Bounding box\<close>

lemma DBL_MAX_pos: "0 < DBL_MAX"
proof -
  have "(2::real) ^ 971 < 2 ^ 1024"
    by (rule power_strict_increasing) simp_all
  then show ?thesis
    by (simp add: DBL_MAX_def)
qed

lemma std_min_DBL_MAX: "finite_double v \<Longrightarrow> std_min DBL_MAX v = v"
  by (simp add: finite_double_def std_min_def)

lemma std_max_DBL_LOWEST: "finite_double v \<Longrightarrow> std_max DBL_LOWEST v = v"
  by (simp add: finite_double_def std_max_def)

lemma std_min_le: "std_min a b \<le> a" "std_min a b \<le> b"
  by (simp_all add: std_min_def)

lemma std_max_ge: "a \<le> std_max a b" "b \<le> std_max a b"
  by (simp_all add: std_max_def)

lemma std_min_cases: "std_min a b = a \<or> std_min a b = b"
  by (simp add: std_min_def)

lemma std_max_cases: "std_max a b = a \<or> std_max a b = b"
  by (simp add: std_max_def)

lemma finite_double_small: "\<bar>v\<bar> \<le> 1000 \<Longrightarrow> finite_double v"
proof -
  assume a: "\<bar>v\<bar> \<le> 1000"
  have "(2::real) ^ 971 * 2 \<le> 2 ^ 971 * 2 ^ 53"
    by (rule mult_left_mono) simp_all
  then have "(2::real) ^ 971 + 2 ^ 971 \<le> 2 ^ 1024"
    by (simp add: power_add [symmetric])
  moreover have "(1000::real) \<le> 2 ^ 971"
  proof -
    have "(1000::real) \<le> 2 ^ 10" by simp
    also have "\<dots> \<le> 2 ^ 971" by (rule power_increasing) simp_all
    finally show ?thesis .
  qed
  ultimately have "1000 \<le> DBL_MAX"
    by (simp add: DBL_MAX_def)
  with a show ?thesis
    by (simp add: finite_double_def DBL_LOWEST_def abs_le_iff)
qed

lemma BoundingBox_default_components:
  "x (bbox_min BoundingBox_default) > x (bbox_max BoundingBox_default)
   \<and> y (bbox_min BoundingBox_default) > y (bbox_max BoundingBox_default)
   \<and> z (bbox_min BoundingBox_default) > z (bbox_max BoundingBox_default)"
  using DBL_MAX_pos by (simp add: BoundingBox_default_def DBL_LOWEST_def)

lemma expand_default:
  assumes "finite_point P"
  shows "bbox_min (expand BoundingBox_default P) = P"
    and "bbox_max (expand BoundingBox_default P) = P"
proof -
  from assms have fin: "finite_double (x P)" "finite_double (y P)" "finite_double (z P)"
    by (simp_all add: finite_point_def)
  from fin show "bbox_min (expand BoundingBox_default P) = P"
    by (simp add: expand_def BoundingBox_default_def std_min_DBL_MAX)
  from fin show "bbox_max (expand BoundingBox_default P) = P"
    by (simp add: expand_def BoundingBox_default_def std_max_DBL_LOWEST)
qed

lemma expand_min_down:
  "x (bbox_min (expand b Q)) \<le> x (bbox_min b) \<and> x (bbox_min (expand b Q)) \<le> x Q
   \<and> y (bbox_min (expand b Q)) \<le> y (bbox_min b) \<and> y (bbox_min (expand b Q)) \<le> y Q
   \<and> z (bbox_min (expand b Q)) \<le> z (bbox_min b) \<and> z (bbox_min (expand b Q)) \<le> z Q"
  by (simp add: expand_def std_min_le)

lemma expand_max_up:
  "x (bbox_max b) \<le> x (bbox_max (expand b Q)) \<and> x Q \<le> x (bbox_max (expand b Q))
   \<and> y (bbox_max b) \<le> y (bbox_max (expand b Q)) \<and> y Q \<le> y (bbox_max (expand b Q))
   \<and> z (bbox_max b) \<le> z (bbox_max (expand b Q)) \<and> z Q \<le> z (bbox_max (expand b Q))"
  by (simp add: expand_def std_max_ge)

lemma expand_min_choice:
  "x (bbox_min (expand b Q)) \<in> {x (bbox_min b), x Q}
   \<and> y (bbox_min (expand b Q)) \<in> {y (bbox_min b), y Q}
   \<and> z (bbox_min (expand b Q)) \<in> {z (bbox_min b), z Q}"
  using std_min_cases by (simp add: expand_def)

lemma expand_max_choice:
  "x (bbox_max (expand b Q)) \<in> {x (bbox_max b), x Q}
   \<and> y (bbox_max (expand b Q)) \<in> {y (bbox_max b), y Q}
   \<and> z (bbox_max (expand b Q)) \<in> {z (bbox_max b), z Q}"
  using std_max_cases by (simp add: expand_def)

text \<open>
  C9.  A default-constructed bounding box is empty, each min component exceeding the
  corresponding max component.  Expanding it with one finite point \<open>P\<close> makes min and
  max both \<open>P\<close> and the box non-empty.  Expanding any box \<open>b\<close> with a further point
  \<open>Q\<close> moves no min component up and no max component down, \<open>Q\<close> lies between the new
  min and max, and each new component is the old one or the one of \<open>Q\<close>.
\<close>

theorem BoundingBox_empty_then_expand:
  fixes P Q :: "real Point3D" and b :: BoundingBox
  assumes "finite_point P"
  shows "isEmpty BoundingBox_default
    \<and> (x (bbox_min BoundingBox_default) > x (bbox_max BoundingBox_default)
       \<and> y (bbox_min BoundingBox_default) > y (bbox_max BoundingBox_default)
       \<and> z (bbox_min BoundingBox_default) > z (bbox_max BoundingBox_default))
    \<and> bbox_min (expand BoundingBox_default P) = P
    \<and> bbox_max (expand BoundingBox_default P) = P
    \<and> \<not> isEmpty (expand BoundingBox_default P)
    \<and> (x (bbox_min (expand b Q)) \<le> x (bbox_min b) \<and> x (bbox_min (expand b Q)) \<le> x Q
       \<and> y (bbox_min (expand b Q)) \<le> y (bbox_min b) \<and> y (bbox_min (expand b Q)) \<le> y Q
       \<and> z (bbox_min (expand b Q)) \<le> z (bbox_min b) \<and> z (bbox_min (expand b Q)) \<le> z Q)
    \<and> (x (bbox_max b) \<le> x (bbox_max (expand b Q)) \<and> x Q \<le> x (bbox_max (expand b Q))
       \<and> y (bbox_max b) \<le> y (bbox_max (expand b Q)) \<and> y Q \<le> y (bbox_max (expand b Q))
       \<and> z (bbox_max b) \<le> z (bbox_max (expand b Q)) \<and> z Q \<le> z (bbox_max (expand b Q)))
    \<and> (x (bbox_min (expand b Q)) \<in> {x (bbox_min b), x Q}
       \<and> y (bbox_min (expand b Q)) \<in> {y (bbox_min b), y Q}
       \<and> z (bbox_min (expand b Q)) \<in> {z (bbox_min b), z Q})
    \<and> (x (bbox_max (expand b Q)) \<in> {x (bbox_max b), x Q}
       \<and> y (bbox_max (expand b Q)) \<in> {y (bbox_max b), y Q}
       \<and> z (bbox_max (expand b Q)) \<in> {z (bbox_max b), z Q})"
proof -
  have e: "isEmpty BoundingBox_default"
    using BoundingBox_default_components by (simp add: isEmpty_def)
  have ne: "\<not> isEmpty (expand BoundingBox_default P)"
    using expand_default [OF assms] by (simp add: isEmpty_def)
  show ?thesis
    using e ne BoundingBox_default_components expand_default [OF assms]
      expand_min_down [of b Q] expand_max_up [of b Q]
      expand_min_choice [of b Q] expand_max_choice [of b Q]
    by blast
qed

text \<open>
  The box of the unit tests: first \<open>(-1, -2, -3)\<close>, then \<open>(4, 5, 6)\<close>.
\<close>

theorem BoundingBox_empty_then_expand_witness:
  "finite_point \<lparr>x = -1, y = -2, z = -3\<rparr>
   \<and> isEmpty BoundingBox_default
   \<and> bbox_min (expand BoundingBox_default \<lparr>x = -1, y = -2, z = -3\<rparr>) = \<lparr>x = -1, y = -2, z = -3\<rparr>
   \<and> bbox_max (expand BoundingBox_default \<lparr>x = -1, y = -2, z = -3\<rparr>) = \<lparr>x = -1, y = -2, z = -3\<rparr>
   \<and> \<not> isEmpty (expand BoundingBox_default \<lparr>x = -1, y = -2, z = -3\<rparr>)
   \<and> bbox_min (expand (expand BoundingBox_default \<lparr>x = -1, y = -2, z = -3\<rparr>)
        \<lparr>x = 4, y = 5, z = 6\<rparr>) = \<lparr>x = -1, y = -2, z = -3\<rparr>
   \<and> bbox_max (expand (expand BoundingBox_default \<lparr>x = -1, y = -2, z = -3\<rparr>)
        \<lparr>x = 4, y = 5, z = 6\<rparr>) = \<lparr>x = 4, y = 5, z = 6\<rparr>"
proof -
  have fin: "finite_point \<lparr>x = -1, y = -2, z = -3\<rparr>"
    by (simp add: finite_point_def finite_double_small)
  have first: "expand BoundingBox_default \<lparr>x = -1, y = -2, z = -3\<rparr>
      = \<lparr>bbox_min = \<lparr>x = -1, y = -2, z = -3\<rparr>, bbox_max = \<lparr>x = -1, y = -2, z = -3\<rparr>\<rparr>"
    using BoundingBox_empty_then_expand [OF fin] by simp
  show ?thesis
    using fin BoundingBox_empty_then_expand [OF fin]
    by (simp add: first) (simp add: expand_def std_min_def std_max_def)
qed

section \<open>Termination of the scan\<close>


lemma scan_body_never_throws:
  "never_throws cb \<Longrightarrow> raised (scan_body stod cb fs lines s) = raised s"
  by (auto simp: never_throws_def scan_body_def emit_triangle_def Let_def reportProgress_def
      split: prod.splits option.splits)

lemma scan_loop_never_throws:
  "never_throws cb \<Longrightarrow> raised (scan_loop stod cb fs lines s) = raised s"
proof (induction stod cb fs lines s rule: scan_loop.induct)
  case (1 stod cb fs lines s)
  show ?case
  proof (cases "cursor s < length lines \<and> raised s = None")
    case False
    then have "scan_loop stod cb fs lines s = s"
      by (rule scan_loop_done)
    then show ?thesis
      by simp
  next
    case True
    then have "scan_loop stod cb fs lines s
        = scan_loop stod cb fs lines (scan_body stod cb fs lines s)"
      by (rule scan_loop_step)
    with "1.IH" [OF True "1.prems"] scan_body_never_throws [OF "1.prems", of stod fs lines s]
    show ?thesis
      by simp
  qed
qed






section \<open>The face parser\<close>

lemma switch_code_index [simp]: "index (switch_code stod st code val) = index st"
  by (simp add: switch_code_def assign_x_def assign_y_def assign_z_def split: option.splits)

lemma switch_code_index_update:
  "switch_code stod (st\<lparr>index := j\<rparr>) code val = (switch_code stod st code val)\<lparr>index := j\<rparr>"
  by (simp add: switch_code_def assign_x_def assign_y_def assign_z_def split: option.splits)

lemma store_pairs_index_update:
  "store_pairs stod (st\<lparr>index := j\<rparr>) pairs = (store_pairs stod st pairs)\<lparr>index := j\<rparr>"
  unfolding store_pairs_def
  by (induction pairs arbitrary: st) (simp_all add: switch_code_index_update)

lemma store_pairs_Cons:
  "store_pairs stod st ((c, v) # pairs) = store_pairs stod (switch_code stod st c v) pairs"
  by (simp add: store_pairs_def)

lemma store_pairs_snoc:
  "store_pairs stod st (pairs @ [(c, v)]) = switch_code stod (store_pairs stod st pairs) c v"
  by (simp add: store_pairs_def)

lemma face_loop_store:
  "vertices (face_loop stod lines st) = vertices (store_pairs stod st (face_pairs lines (index st)))
   \<and> hasVertex (face_loop stod lines st)
       = hasVertex (store_pairs stod st (face_pairs lines (index st)))"
proof (induction stod lines st rule: face_loop.induct)
  case (1 stod lines st)
  show ?case
  proof (cases "index st < length lines")
    case False
    then show ?thesis
      by (simp add: face_loop.simps [of stod lines st] face_pairs.simps [of lines "index st"]
          store_pairs_def)
  next
    case True
    show ?thesis
    proof (cases "face_body stod lines st")
      case None
      with True show ?thesis
        by (auto simp: face_loop.simps [of stod lines st] face_pairs.simps [of lines "index st"]
            store_pairs_def face_body_def split: if_splits option.splits)
    next
      case (Some st')
      note IH = "1.IH" [OF True Some]
      from Some show ?thesis
      proof (cases "stoi (lines ! index st)")
        case None
        with Some True have st': "st' = st\<lparr>index := index st + 1\<rparr>"
          and p: "face_pairs lines (index st) = face_pairs lines (index st + 1)"
          by (auto simp: face_body_def face_pairs.simps [of lines "index st"] split: if_splits)
        from IH True Some show ?thesis
          by (simp add: face_loop.simps [of stod lines st] p st' store_pairs_index_update)
      next
        case (Some code)
        with \<open>face_body stod lines st = Some st'\<close> True
        have st': "st' = (switch_code stod st code (lines ! (index st + 1)))\<lparr>index := index st + 2\<rparr>"
          and p: "face_pairs lines (index st)
              = (code, lines ! (index st + 1)) # face_pairs lines (index st + 2)"
          by (auto simp: face_body_def face_pairs.simps [of lines "index st"] split: if_splits)
        from IH True \<open>face_body stod lines st = Some st'\<close> show ?thesis
          by (simp add: face_loop.simps [of stod lines st] p st' store_pairs_index_update
              store_pairs_Cons)
      qed
    qed
  qed
qed


lemma values_for_snoc:
  "values_for (pairs @ [(c, v)]) code = values_for pairs code @ (if c = code then [v] else [])"
  by (simp add: values_for_def)

lemma coord_snoc:
  "coord stod (pairs @ [(c, v)]) code =
     (if c = code then (case stod v of Some d \<Rightarrow> d | None \<Rightarrow> 0) else coord stod pairs code)"
  by (simp add: coord_def values_for_snoc)

lemma populated_snoc:
  "populated stod (pairs @ [(c, v)]) k
     \<longleftrightarrow> populated stod pairs k \<or> (c = 10 + int k \<and> stod v \<noteq> None)"
  by (auto simp: populated_def values_for_snoc)

lemma face_inv_init: "face_inv stod [] (face_init i0)"
  by (auto simp: face_inv_def face_init_def populated_def values_for_def buffered_vertex_def
      coord_def Point3D_default_def less_Suc_eq numeral_3_eq_3)

lemma switch_code_x: "j < 3 \<Longrightarrow> switch_code stod st (10 + int j) v = assign_x stod st j v"
  by (auto simp: switch_code_def)

lemma switch_code_y: "j < 3 \<Longrightarrow> switch_code stod st (20 + int j) v = assign_y stod st j v"
  by (auto simp: switch_code_def)

lemma switch_code_z: "j < 3 \<Longrightarrow> switch_code stod st (30 + int j) v = assign_z stod st j v"
  by (auto simp: switch_code_def)

lemma face_inv_step:
  assumes "face_inv stod pairs st"
  shows "face_inv stod (pairs @ [(c, v)]) (switch_code stod st c v)"
proof -
  from assms have len: "length (vertices st) = 3" "length (hasVertex st) = 3"
    and old: "\<And>k. k < 3 \<Longrightarrow> hasVertex st ! k = populated stod pairs k"
             "\<And>k. k < 3 \<Longrightarrow> vertices st ! k = buffered_vertex stod pairs k"
    by (simp_all add: face_inv_def)
  have new: "hasVertex (switch_code stod st c v) ! k = populated stod (pairs @ [(c, v)]) k
      \<and> vertices (switch_code stod st c v) ! k = buffered_vertex stod (pairs @ [(c, v)]) k"
    if k: "k < 3" for k
  proof -
    consider (cx) j where "j < 3" "c = 10 + int j"
      | (cy) j where "j < 3" "c = 20 + int j"
      | (cz) j where "j < 3" "c = 30 + int j"
      | (other) "c \<notin> {10, 11, 12, 20, 21, 22, 30, 31, 32}"
    proof -
      have "c \<in> {10, 11, 12, 20, 21, 22, 30, 31, 32} \<or> c \<notin> {10, 11, 12, 20, 21, 22, 30, 31, 32}"
        by blast
      then show ?thesis
      proof
        assume "c \<notin> {10, 11, 12, 20, 21, 22, 30, 31, 32}"
        then show ?thesis by (rule other)
      next
        assume "c \<in> {10, 11, 12, 20, 21, 22, 30, 31, 32}"
        then consider "c = 10 + int 0" | "c = 10 + int 1" | "c = 10 + int 2"
          | "c = 20 + int 0" | "c = 20 + int 1" | "c = 20 + int 2"
          | "c = 30 + int 0" | "c = 30 + int 1" | "c = 30 + int 2"
          by auto
        then show ?thesis
          by cases (rule cx cy cz; simp)+
      qed
    qed
    then show ?thesis
    proof cases
      case cx
      show ?thesis
        using k cx len old [OF k] old [OF cx(1)]
        by (cases "j = k")
           (auto simp: switch_code_x assign_x_def populated_snoc buffered_vertex_def coord_snoc
             split: option.splits)
    next
      case cy
      show ?thesis
        using k cy len old [OF k] old [OF cy(1)]
        by (cases "j = k")
           (auto simp: switch_code_y assign_y_def populated_snoc buffered_vertex_def coord_snoc
             split: option.splits)
    next
      case cz
      show ?thesis
        using k cz len old [OF k] old [OF cz(1)]
        by (cases "j = k")
           (auto simp: switch_code_z assign_z_def populated_snoc buffered_vertex_def coord_snoc
             split: option.splits)
    next
      case other
      then have sw: "switch_code stod st c v = st"
        by (simp add: switch_code_def)
      from other k have "c \<noteq> 10 + int k" "c \<noteq> 20 + int k" "c \<noteq> 30 + int k"
        by (auto simp: less_Suc_eq numeral_3_eq_3)
      then show ?thesis
        using old [OF k]
        by (simp add: sw populated_snoc buffered_vertex_def coord_snoc)
    qed
  qed
  have "length (vertices (switch_code stod st c v)) = 3"
    "length (hasVertex (switch_code stod st c v)) = 3"
    using len
    by (simp_all add: switch_code_def assign_x_def assign_y_def assign_z_def split: option.splits)
  with new show ?thesis
    by (simp add: face_inv_def)
qed

lemma face_inv_store: "face_inv stod pairs (store_pairs stod (face_init i0) pairs)"
proof (induction pairs rule: rev_induct)
  case Nil
  then show ?case by (simp add: store_pairs_def face_inv_init)
next
  case (snoc p pairs)
  then show ?case
    by (cases p) (simp add: store_pairs_snoc face_inv_step)
qed

lemma face_loop_buffers:
  assumes "k < 3"
  shows "hasVertex (face_loop stod lines (face_init i0)) ! k
           = populated stod (face_pairs lines i0) k"
    and "vertices (face_loop stod lines (face_init i0)) ! k
           = buffered_vertex stod (face_pairs lines i0) k"
proof -
  have "index (face_init i0 :: 'a face_state) = i0"
    by (simp add: face_init_def)
  then have "face_inv stod (face_pairs lines i0) (store_pairs stod (face_init i0) (face_pairs lines (index (face_init i0 :: 'a face_state))))"
    using face_inv_store [of stod "face_pairs lines i0" i0] by simp
  with assms show "hasVertex (face_loop stod lines (face_init i0)) ! k
           = populated stod (face_pairs lines i0) k"
    and "vertices (face_loop stod lines (face_init i0)) ! k
           = buffered_vertex stod (face_pairs lines i0) k"
    using face_loop_store [of stod lines "face_init i0"]
    by (simp_all add: face_inv_def)
qed

lemma parse3DFaceFromLines_pairs:
  "snd (parse3DFaceFromLines stod lines i0) = triangle_of_pairs stod (face_pairs lines i0)"
  using face_loop_buffers [of 0 stod lines i0] face_loop_buffers [of 1 stod lines i0]
    face_loop_buffers [of 2 stod lines i0]
  by (simp add: parse3DFaceFromLines_def Let_def triangle_of_pairs_def)


lemma populated_iff:
  "populated stod pairs k \<longleftrightarrow> (\<exists>v. (10 + int k, v) \<in> set pairs \<and> stod v \<noteq> None)"
  by (force simp: populated_def values_for_def list_ex_iff)

lemma scan_body_failed_face:
  "snd (parse3DFaceFromLines stod lines (cursor s + 2)) = None \<Longrightarrow>
   meshData (scan_body stod cb fs lines s) = meshData s
   \<and> entityCount (scan_body stod cb fs lines s) = entityCount s"
  by (auto simp: scan_body_def emit_triangle_def Let_def split: prod.splits option.splits)

text \<open>
  C1.  For every line array and start index the subroutine returns a triangle exactly
  when the vertex slots 0, 1 and 2 are all populated, and then it is the triangle of
  the three buffered vertices in that order.  The flag \<^verbatim>\<open>hasVertex[k]\<close> the code ends
  with is set exactly when some consumed pair has the x code \<open>10 + k\<close> and a value
  that \<open>stod\<close> parses; the buffered vertex holds, per coordinate, the value of the last
  pair with that code (\<open>0\<close> when it does not parse, or when there is none).  When
  the subroutine fails, the scan adds no triangle and leaves the counter alone.
\<close>

theorem parse3DFaceFromLines_iff_populated:
  fixes stod :: "string \<Rightarrow> ('d::zero) option"
  shows "snd (parse3DFaceFromLines stod lines i0)
      = (if populated stod (face_pairs lines i0) 0 \<and> populated stod (face_pairs lines i0) 1
            \<and> populated stod (face_pairs lines i0) 2
         then Some (Triangle (buffered_vertex stod (face_pairs lines i0) 0)
                      (buffered_vertex stod (face_pairs lines i0) 1)
                      (buffered_vertex stod (face_pairs lines i0) 2))
         else None)
    \<and> (\<forall>k<3. hasVertex (face_loop stod lines (face_init i0)) ! k
                 = populated stod (face_pairs lines i0) k
             \<and> vertices (face_loop stod lines (face_init i0)) ! k
                 = buffered_vertex stod (face_pairs lines i0) k)
    \<and> (\<forall>k. populated stod (face_pairs lines i0) k
           \<longleftrightarrow> (\<exists>v. (10 + int k, v) \<in> set (face_pairs lines i0) \<and> stod v \<noteq> None))
    \<and> (snd (parse3DFaceFromLines stod lines (cursor s + 2)) = None \<longrightarrow>
         meshData (scan_body stod cb fs lines s) = meshData s
         \<and> entityCount (scan_body stod cb fs lines s) = entityCount s)"
proof -
  have "snd (parse3DFaceFromLines stod lines i0) = triangle_of_pairs stod (face_pairs lines i0)"
    by (rule parse3DFaceFromLines_pairs)
  then show ?thesis
    using face_loop_buffers [of _ stod lines i0] scan_body_failed_face [of stod lines s cb fs]
    by (simp add: triangle_of_pairs_def populated_iff)
qed

theorem parse3DFaceFromLines_iff_populated_witness:
  "snd (parse3DFaceFromLines stod_plain malformed_face
          (cursor ((scan_init :: real scan_state)\<lparr>inEntitiesSection := True\<rparr>) + 2)) = None
   \<and> meshData (scan_body stod_plain (Some silent_callback) 1 malformed_face (scan_init\<lparr>inEntitiesSection := True\<rparr>))
       = meshData ((scan_init :: real scan_state)\<lparr>inEntitiesSection := True\<rparr>)
   \<and> face_pairs malformed_face 2 = [(10, ''1''), (11, ''5''), (12, ''x'')]
   \<and> hasVertex (face_loop stod_plain malformed_face (face_init 2)) = [True, True, False]
   \<and> snd (parse3DFaceFromLines stod_plain two_triangles 28)
       = Some (Triangle \<lparr>x = 1, y = 2, z = 3\<rparr> \<lparr>x = 4, y = 5, z = 6\<rparr> \<lparr>x = 7, y = 8, z = 9\<rparr>)"
proof -
  have a: "snd (parse3DFaceFromLines stod_plain malformed_face
          (cursor ((scan_init :: real scan_state)\<lparr>inEntitiesSection := True\<rparr>) + 2)) = None"
    by code_simp
  have b: "face_pairs malformed_face 2 = [(10, ''1''), (11, ''5''), (12, ''x'')]"
    by code_simp
  have c: "hasVertex (face_loop stod_plain malformed_face (face_init 2)) = [True, True, False]"
    by code_simp
  have d: "snd (parse3DFaceFromLines stod_plain two_triangles 28)
       = Some (Triangle \<lparr>x = 1, y = 2, z = 3\<rparr> \<lparr>x = 4, y = 5, z = 6\<rparr> \<lparr>x = 7, y = 8, z = 9\<rparr>)"
    by code_simp
  show ?thesis
    using a b c d
      parse3DFaceFromLines_iff_populated [of stod_plain malformed_face 2
        "(scan_init :: real scan_state)\<lparr>inEntitiesSection := True\<rparr>" "Some silent_callback" 1]
    by blast
qed


section \<open>Recovery from malformed lines\<close>

lemma stoi_zero: "stoi ''0'' = Some 0"
  by code_simp

lemma face_loop_continue:
  "index st < length lines \<Longrightarrow> face_body stod lines st = Some st' \<Longrightarrow>
   face_loop stod lines st = face_loop stod lines st'"
  by (simp add: face_loop.simps [of stod lines st])

lemma face_body_bad_code:
  "stoi (lines ! index st) = None \<Longrightarrow>
   face_body stod lines st = Some (st\<lparr>index := index st + 1\<rparr>)"
  using stoi_zero by (auto simp: face_body_def)

lemma face_body_pair:
  "index st + 1 < length lines \<Longrightarrow> stoi (lines ! index st) = Some code \<Longrightarrow> code \<noteq> 0 \<Longrightarrow>
   face_body stod lines st
     = Some ((switch_code stod st code (lines ! (index st + 1)))\<lparr>index := index st + 2\<rparr>)"
  using stoi_zero by (auto simp: face_body_def)

text \<open>
  C4.  Inside the face loop, at a line that \<^verbatim>\<open>std::stoi\<close> rejects the iteration only
  moves the cursor by one and the loop goes on from there with the buffers untouched.
  At a pair whose code is an x, y or z code of vertex \<open>k\<close> and whose value
  \<^verbatim>\<open>std::stod\<close> rejects, the iteration sets that coordinate of vertex \<open>k\<close> to \<open>0\<close>,
  moves the cursor by two and the loop goes on.  In neither case is the loop left, and
  the subroutine has no way to report an error: it returns a cursor and at most a
  triangle.
\<close>

theorem malformed_lines_recovered:
  fixes stod :: "string \<Rightarrow> ('d::zero) option"
  assumes "index st < length lines"
  shows "(stoi (lines ! index st) = None \<longrightarrow>
            face_body stod lines st = Some (st\<lparr>index := index st + 1\<rparr>)
          \<and> face_loop stod lines st = face_loop stod lines (st\<lparr>index := index st + 1\<rparr>))
    \<and> (index st + 1 < length lines \<and> stod (lines ! (index st + 1)) = None \<longrightarrow>
        (\<forall>k<3.
           (stoi (lines ! index st) = Some (10 + int k) \<longrightarrow>
              face_body stod lines st
                = Some (st\<lparr>vertices := (vertices st)[k := (vertices st ! k)\<lparr>x := 0\<rparr>],
                         index := index st + 2\<rparr>)
            \<and> face_loop stod lines st
                = face_loop stod lines
                    (st\<lparr>vertices := (vertices st)[k := (vertices st ! k)\<lparr>x := 0\<rparr>],
                       index := index st + 2\<rparr>))
         \<and> (stoi (lines ! index st) = Some (20 + int k) \<longrightarrow>
              face_body stod lines st
                = Some (st\<lparr>vertices := (vertices st)[k := (vertices st ! k)\<lparr>y := 0\<rparr>],
                         index := index st + 2\<rparr>)
            \<and> face_loop stod lines st
                = face_loop stod lines
                    (st\<lparr>vertices := (vertices st)[k := (vertices st ! k)\<lparr>y := 0\<rparr>],
                       index := index st + 2\<rparr>))
         \<and> (stoi (lines ! index st) = Some (30 + int k) \<longrightarrow>
              face_body stod lines st
                = Some (st\<lparr>vertices := (vertices st)[k := (vertices st ! k)\<lparr>z := 0\<rparr>],
                         index := index st + 2\<rparr>)
            \<and> face_loop stod lines st
                = face_loop stod lines
                    (st\<lparr>vertices := (vertices st)[k := (vertices st ! k)\<lparr>z := 0\<rparr>],
                       index := index st + 2\<rparr>))))"
proof -
  have bad: "face_body stod lines st = Some (st\<lparr>index := index st + 1\<rparr>)
      \<and> face_loop stod lines st = face_loop stod lines (st\<lparr>index := index st + 1\<rparr>)"
    if "stoi (lines ! index st) = None"
    using that assms face_body_bad_code [of lines st stod]
      face_loop_continue [of st lines stod "st\<lparr>index := index st + 1\<rparr>"]
    by simp
  have pair: "face_body stod lines st
        = Some ((switch_code stod st code (lines ! (index st + 1)))\<lparr>index := index st + 2\<rparr>)
      \<and> face_loop stod lines st
        = face_loop stod lines
            ((switch_code stod st code (lines ! (index st + 1)))\<lparr>index := index st + 2\<rparr>)"
    if "index st + 1 < length lines" "stoi (lines ! index st) = Some code" "code \<noteq> 0" for code
    using that assms face_body_pair [of st lines code stod]
      face_loop_continue [of st lines stod
        "(switch_code stod st code (lines ! (index st + 1)))\<lparr>index := index st + 2\<rparr>"]
    by simp
  have sx: "switch_code stod st (10 + int k) (lines ! (index st + 1))
      = st\<lparr>vertices := (vertices st)[k := (vertices st ! k)\<lparr>x := 0\<rparr>]\<rparr>"
    if "k < 3" "stod (lines ! (index st + 1)) = None" for k
    using that by (simp add: switch_code_x assign_x_def)
  have sy: "switch_code stod st (20 + int k) (lines ! (index st + 1))
      = st\<lparr>vertices := (vertices st)[k := (vertices st ! k)\<lparr>y := 0\<rparr>]\<rparr>"
    if "k < 3" "stod (lines ! (index st + 1)) = None" for k
    using that by (simp add: switch_code_y assign_y_def)
  have sz: "switch_code stod st (30 + int k) (lines ! (index st + 1))
      = st\<lparr>vertices := (vertices st)[k := (vertices st ! k)\<lparr>z := 0\<rparr>]\<rparr>"
    if "k < 3" "stod (lines ! (index st + 1)) = None" for k
    using that by (simp add: switch_code_z assign_z_def)
  show ?thesis
    using bad pair [of "10 + int _"] pair [of "20 + int _"] pair [of "30 + int _"] sx sy sz
    by simp
qed


theorem malformed_lines_recovered_witness:
  "face_loop stod_plain garbled_face (face_init 0) = face_loop stod_plain garbled_face (garbled_state 2)
   \<and> stoi (garbled_face ! 2) = None
   \<and> face_body stod_plain garbled_face (garbled_state 2) = Some (garbled_state 3)
   \<and> stoi (garbled_face ! 3) = Some 10 \<and> stod_plain (garbled_face ! 4) = None
   \<and> face_body stod_plain garbled_face (garbled_state 3)
       = Some \<lparr>index = 5, vertices = [\<lparr>x = 0, y = 0, z = 0\<rparr>, Point3D_default, Point3D_default],
               hasVertex = [True, False, False]\<rparr>
   \<and> face_loop stod_plain garbled_face (garbled_state 2)
       = \<lparr>index = 5, vertices = [\<lparr>x = 0, y = 0, z = 0\<rparr>, Point3D_default, Point3D_default],
          hasVertex = [True, False, False]\<rparr>"
proof -
  have first: "face_loop stod_plain garbled_face (face_init 0)
      = face_loop stod_plain garbled_face (garbled_state 2)"
    by code_simp
  have code2: "stoi (garbled_face ! 2) = None"
    by code_simp
  have code3: "stoi (garbled_face ! 3) = Some (10 + int 0)"
    by code_simp
  have val4: "stod_plain (garbled_face ! 4) = None"
    by code_simp
  have in2: "index (garbled_state 2) < length garbled_face"
    by (simp add: garbled_state_def garbled_face_def)
  have in3: "index (garbled_state 3) < length garbled_face"
    by (simp add: garbled_state_def garbled_face_def)
  have in4: "index (garbled_state 3) + 1 < length garbled_face"
    by (simp add: garbled_state_def garbled_face_def)
  have i2: "index (garbled_state 2) = 2" and i3: "index (garbled_state 3) = 3"
    by (simp_all add: garbled_state_def)
  have u2: "(garbled_state 2)\<lparr>index := 3\<rparr> = garbled_state 3"
    by (simp add: garbled_state_def)
  have u3: "(garbled_state 3)\<lparr>vertices := (vertices (garbled_state 3))
          [0 := (vertices (garbled_state 3) ! 0)\<lparr>x := 0\<rparr>], index := 5\<rparr>
      = \<lparr>index = 5, vertices = [\<lparr>x = 0, y = 0, z = 0\<rparr>, Point3D_default, Point3D_default],
          hasVertex = [True, False, False]\<rparr>"
    by (simp add: garbled_state_def)
  have last: "face_loop stod_plain garbled_face
       \<lparr>index = 5, vertices = [\<lparr>x = 0, y = 0, z = 0\<rparr>, Point3D_default, Point3D_default],
          hasVertex = [True, False, False]\<rparr>
      = \<lparr>index = 5, vertices = [\<lparr>x = 0::real, y = 0, z = 0\<rparr>, Point3D_default, Point3D_default],
          hasVertex = [True, False, False]\<rparr>"
    by (simp add: face_loop.simps face_body_def garbled_face_def)
  have s2: "face_body stod_plain garbled_face (garbled_state 2) = Some (garbled_state 3)
      \<and> face_loop stod_plain garbled_face (garbled_state 2)
        = face_loop stod_plain garbled_face (garbled_state 3)"
    using malformed_lines_recovered [OF in2, of stod_plain] code2 by (simp add: i2 u2)
  have s3: "face_body stod_plain garbled_face (garbled_state 3)
       = Some \<lparr>index = 5, vertices = [\<lparr>x = 0, y = 0, z = 0\<rparr>, Point3D_default, Point3D_default],
               hasVertex = [True, False, False]\<rparr>
      \<and> face_loop stod_plain garbled_face (garbled_state 3)
       = face_loop stod_plain garbled_face
          \<lparr>index = 5, vertices = [\<lparr>x = 0, y = 0, z = 0\<rparr>, Point3D_default, Point3D_default],
               hasVertex = [True, False, False]\<rparr>"
    using malformed_lines_recovered [OF in3, of stod_plain] code3 val4 in4
    by (simp add: i3 u3 del: of_nat_0)
  from code3 have code3': "stoi (garbled_face ! 3) = Some 10"
    by simp
  show ?thesis
    using first code2 code3' val4 s2 s3 last by simp
qed


section \<open>The fourth vertex\<close>

lemma face_body_cong:
  assumes "length lines' = length lines" and "\<And>j. index st \<le> j \<Longrightarrow> lines' ! j = lines ! j"
  shows "face_body stod lines' st = face_body stod lines st"
proof -
  have "lines' ! index st = lines ! index st" "lines' ! (index st + 1) = lines ! (index st + 1)"
    using assms(2) by simp_all
  with assms(1) show ?thesis
    by (simp add: face_body_def split: option.splits)
qed

lemma face_loop_cong:
  "length lines' = length lines \<Longrightarrow> (\<And>j. index st \<le> j \<Longrightarrow> lines' ! j = lines ! j) \<Longrightarrow>
   face_loop stod lines' st = face_loop stod lines st"
proof (induction stod lines st rule: face_loop.induct)
  case (1 stod lines st)
  have body: "face_body stod lines' st = face_body stod lines st"
    using "1.prems" by (rule face_body_cong)
  show ?case
  proof (cases "index st < length lines")
    case False
    with "1.prems" show ?thesis
      by (simp add: face_loop.simps [of stod lines st] face_loop.simps [of stod lines' st])
  next
    case True
    show ?thesis
    proof (cases "face_body stod lines st")
      case None
      with True body "1.prems" show ?thesis
        by (simp add: face_loop.simps [of stod lines st] face_loop.simps [of stod lines' st])
    next
      case (Some st')
      then have "index st < index st'" by (rule face_body_index)
      with "1.prems" have "\<And>j. index st' \<le> j \<Longrightarrow> lines' ! j = lines ! j"
        by simp
      with "1.IH" [OF True Some] "1.prems"(1)
      have "face_loop stod lines' st' = face_loop stod lines st'"
        by simp
      with True Some body "1.prems"(1) show ?thesis
        by (simp add: face_loop.simps [of stod lines st] face_loop.simps [of stod lines' st])
    qed
  qed
qed

lemma values_for_filter:
  "(\<And>p. fst p = code \<Longrightarrow> P p) \<Longrightarrow> values_for (filter P pairs) code = values_for pairs code"
  unfolding values_for_def
  by (induction pairs) auto

lemma triangle_of_pairs_filter:
  "triangle_of_pairs stod (filter (\<lambda>p. fst p \<noteq> 13 \<and> fst p \<noteq> 23 \<and> fst p \<noteq> 33) pairs)
     = triangle_of_pairs stod pairs"
  by (simp add: triangle_of_pairs_def populated_def buffered_vertex_def coord_def
      values_for_filter)

text \<open>
  C6.  At a pair with group code 13, 23 or 33 the iteration consumes the code line and
  the value line (the cursor moves by two, the pair is among the consumed pairs) and
  changes neither the vertex buffer nor the flags; the loop goes on; replacing the value
  line by any other text leaves the outcome of the loop alone.  The triangle the
  subroutine returns on any input is the one of the consumed pairs with all pairs of
  code 13, 23 and 33 removed.
\<close>

theorem fourth_vertex_not_stored:
  fixes stod :: "string \<Rightarrow> ('d::zero) option"
  assumes "index st + 1 < length lines"
    and "stoi (lines ! index st) = Some code"
    and "code = 13 \<or> code = 23 \<or> code = 33"
  shows "face_body stod lines st = Some (st\<lparr>index := index st + 2\<rparr>)
    \<and> face_loop stod lines st = face_loop stod lines (st\<lparr>index := index st + 2\<rparr>)
    \<and> face_loop stod (lines[index st + 1 := w]) st = face_loop stod lines st
    \<and> face_pairs lines (index st) = (code, lines ! (index st + 1)) # face_pairs lines (index st + 2)
    \<and> snd (parse3DFaceFromLines stod lines' i0)
        = triangle_of_pairs stod
            (filter (\<lambda>p. fst p \<noteq> 13 \<and> fst p \<noteq> 23 \<and> fst p \<noteq> 33) (face_pairs lines' i0))"
proof -
  from assms(3) have sw: "switch_code stod st code v = st" for v
    by (auto simp: switch_code_def)
  from assms(3) have nz: "code \<noteq> 0"
    by auto
  have body: "face_body stod lines st = Some (st\<lparr>index := index st + 2\<rparr>)"
    using face_body_pair [OF assms(1,2) nz, of stod] by (simp add: sw)
  from assms(1) have inb: "index st < length lines"
    by simp
  have loop: "face_loop stod lines st = face_loop stod lines (st\<lparr>index := index st + 2\<rparr>)"
    using inb body by (rule face_loop_continue)
  have code': "stoi (lines[index st + 1 := w] ! index st) = Some code"
    using assms(2) by simp
  have "face_body stod (lines[index st + 1 := w]) st = Some (st\<lparr>index := index st + 2\<rparr>)"
    using face_body_pair [of st "lines[index st + 1 := w]" code stod] assms(1) code' nz
    by (simp add: sw)
  then have "face_loop stod (lines[index st + 1 := w]) st
      = face_loop stod (lines[index st + 1 := w]) (st\<lparr>index := index st + 2\<rparr>)"
    using inb face_loop_continue [of st "lines[index st + 1 := w]" stod "st\<lparr>index := index st + 2\<rparr>"]
    by simp
  also have "\<dots> = face_loop stod lines (st\<lparr>index := index st + 2\<rparr>)"
    by (rule face_loop_cong) simp_all
  finally have indep: "face_loop stod (lines[index st + 1 := w]) st = face_loop stod lines st"
    using loop by simp
  have pairs: "face_pairs lines (index st)
      = (code, lines ! (index st + 1)) # face_pairs lines (index st + 2)"
    using assms(1,2) nz stoi_zero
    by (auto simp: face_pairs.simps [of lines "index st"])
  show ?thesis
    using body loop indep pairs
    by (simp add: parse3DFaceFromLines_pairs triangle_of_pairs_filter)
qed

theorem fourth_vertex_not_stored_witness:
  "index (face_init 46 :: real face_state) + 1 < length two_triangles
   \<and> stoi (two_triangles ! index (face_init 46 :: real face_state)) = Some 13
   \<and> face_body stod_plain two_triangles (face_init 46) = Some ((face_init 46)\<lparr>index := 48\<rparr>)
   \<and> face_loop stod_plain (two_triangles[47 := ''1000'']) (face_init 46)
       = face_loop stod_plain two_triangles (face_init 46)
   \<and> snd (parse3DFaceFromLines stod_plain (two_triangles[47 := ''1000'']) 28)
       = Some (Triangle \<lparr>x = 1, y = 2, z = 3\<rparr> \<lparr>x = 4, y = 5, z = 6\<rparr> \<lparr>x = 7, y = 8, z = 9\<rparr>)"
proof -
  have a: "index (face_init 46 :: real face_state) + 1 < length two_triangles"
    by (simp add: face_init_def two_triangles_def)
  have b: "stoi (two_triangles ! index (face_init 46 :: real face_state)) = Some 13"
    by code_simp
  have c: "(13::int) = 13 \<or> (13::int) = 23 \<or> (13::int) = 33"
    by simp
  have i: "index (face_init 46 :: real face_state) = 46"
    by (simp add: face_init_def)
  have d: "snd (parse3DFaceFromLines stod_plain (two_triangles[47 := ''1000'']) 28)
       = Some (Triangle \<lparr>x = 1, y = 2, z = 3\<rparr> \<lparr>x = 4, y = 5, z = 6\<rparr> \<lparr>x = 7, y = 8, z = 9\<rparr>)"
    by code_simp
  show ?thesis
    using a b d fourth_vertex_not_stored [OF a b c, of stod_plain "''1000''"]
    by (simp add: i)
qed

section \<open>The ENTITIES section\<close>

lemma scan_body_flag:
  "inEntitiesSection (scan_body stod cb fs lines s) =
     (if section_entities_at lines (cursor s) then True
      else if endsec_at lines (cursor s) then False
      else inEntitiesSection s)"
  by (auto simp: scan_body_def emit_triangle_def Let_def section_entities_at_def endsec_at_def
      split: prod.splits option.splits)

lemma scan_body_outside:
  "\<not> inEntitiesSection s \<Longrightarrow>
   meshData (scan_body stod cb fs lines s) = meshData s
   \<and> entityCount (scan_body stod cb fs lines s) = entityCount s
   \<and> reported (scan_body stod cb fs lines s) = reported s"
  by (simp add: scan_body_def emit_triangle_def Let_def)

lemma scan_body_emits:
  "meshData (scan_body stod cb fs lines s) \<noteq> meshData s
     \<or> entityCount (scan_body stod cb fs lines s) \<noteq> entityCount s
     \<or> reported (scan_body stod cb fs lines s) \<noteq> reported s \<Longrightarrow>
   inEntitiesSection s \<and> face_marker_at lines (cursor s)"
  by (auto simp: scan_body_def emit_triangle_def Let_def face_marker_at_def split: if_splits)

lemma scan_body_adds:
  "(meshData (scan_body stod cb fs lines s) = meshData s
      \<and> entityCount (scan_body stod cb fs lines s) = entityCount s)
   \<or> (\<exists>t. meshData (scan_body stod cb fs lines s) = addTriangle (meshData s) t
         \<and> entityCount (scan_body stod cb fs lines s) = entityCount s + 1)"
  by (auto simp: scan_body_def emit_triangle_def Let_def split: prod.splits option.splits)

lemma scan_body_outside_raised:
  "\<not> inEntitiesSection s \<Longrightarrow> raised (scan_body stod cb fs lines s) = raised s"
  by (simp add: scan_body_def emit_triangle_def Let_def)

lemma scan_body_emits_raised:
  "raised (scan_body stod cb fs lines s) \<noteq> raised s \<Longrightarrow>
   inEntitiesSection s \<and> face_marker_at lines (cursor s)"
  by (auto simp: scan_body_def emit_triangle_def Let_def face_marker_at_def split: if_splits)

text \<open>
  Without the section lines, or without a face marker, the scan changes nothing but
  the cursor.
\<close>

lemma scan_loop_no_section_quiet:
  "\<not> inEntitiesSection s \<Longrightarrow> (\<And>i. \<not> section_entities_at lines i) \<Longrightarrow>
   meshData (scan_loop stod cb fs lines s) = meshData s
   \<and> entityCount (scan_loop stod cb fs lines s) = entityCount s
   \<and> reported (scan_loop stod cb fs lines s) = reported s
   \<and> raised (scan_loop stod cb fs lines s) = raised s"
proof (induction stod cb fs lines s rule: scan_loop.induct)
  case (1 stod cb fs lines s)
  show ?case
  proof (cases "cursor s < length lines \<and> raised s = None")
    case False
    show ?thesis
      by (simp only: scan_loop_done [OF False] simp_thms)
  next
    case True
    have "\<not> inEntitiesSection (scan_body stod cb fs lines s)"
      using "1.prems" by (simp add: scan_body_flag)
    then have "meshData (scan_loop stod cb fs lines (scan_body stod cb fs lines s))
          = meshData (scan_body stod cb fs lines s)
        \<and> entityCount (scan_loop stod cb fs lines (scan_body stod cb fs lines s))
          = entityCount (scan_body stod cb fs lines s)
        \<and> reported (scan_loop stod cb fs lines (scan_body stod cb fs lines s))
          = reported (scan_body stod cb fs lines s)
        \<and> raised (scan_loop stod cb fs lines (scan_body stod cb fs lines s))
          = raised (scan_body stod cb fs lines s)"
      using "1.prems"(2) by (intro "1.IH" [OF True]) simp_all
    moreover note scan_body_outside [OF "1.prems"(1), of stod cb fs lines]
      scan_body_outside_raised [OF "1.prems"(1), of stod cb fs lines]
    ultimately show ?thesis
      by (simp only: scan_loop_step [OF True])
  qed
qed

lemma scan_loop_no_section:
  "\<not> inEntitiesSection s \<Longrightarrow> (\<And>i. \<not> section_entities_at lines i) \<Longrightarrow>
   meshData (scan_loop stod cb fs lines s) = meshData s
   \<and> entityCount (scan_loop stod cb fs lines s) = entityCount s"
  using scan_loop_no_section_quiet [of s lines stod cb fs] by simp

lemma scan_loop_no_face_quiet:
  "(\<And>i. \<not> face_marker_at lines i) \<Longrightarrow>
   meshData (scan_loop stod cb fs lines s) = meshData s
   \<and> entityCount (scan_loop stod cb fs lines s) = entityCount s
   \<and> reported (scan_loop stod cb fs lines s) = reported s
   \<and> raised (scan_loop stod cb fs lines s) = raised s"
proof (induction stod cb fs lines s rule: scan_loop.induct)
  case (1 stod cb fs lines s)
  show ?case
  proof (cases "cursor s < length lines \<and> raised s = None")
    case False
    show ?thesis
      by (simp only: scan_loop_done [OF False] simp_thms)
  next
    case True
    have "meshData (scan_body stod cb fs lines s) = meshData s
        \<and> entityCount (scan_body stod cb fs lines s) = entityCount s
        \<and> reported (scan_body stod cb fs lines s) = reported s
        \<and> raised (scan_body stod cb fs lines s) = raised s"
      using scan_body_emits [of stod cb fs lines s] scan_body_emits_raised [of stod cb fs lines s]
        "1.prems" by blast
    moreover note "1.IH" [OF True "1.prems"]
    ultimately show ?thesis
      by (simp only: scan_loop_step [OF True])
  qed
qed

lemma scan_loop_no_face:
  "(\<And>i. \<not> face_marker_at lines i) \<Longrightarrow>
   meshData (scan_loop stod cb fs lines s) = meshData s
   \<and> entityCount (scan_loop stod cb fs lines s) = entityCount s"
  using scan_loop_no_face_quiet [of lines stod cb fs s] by simp

lemma scan_loop_count:
  "entityCount s = length (triangles (meshData s)) \<Longrightarrow>
   entityCount (scan_loop stod cb fs lines s)
     = length (triangles (meshData (scan_loop stod cb fs lines s)))"
proof (induction stod cb fs lines s rule: scan_loop.induct)
  case (1 stod cb fs lines s)
  show ?case
  proof (cases "cursor s < length lines \<and> raised s = None")
    case False
    from "1.prems" show ?thesis
      by (simp only: scan_loop_done [OF False])
  next
    case True
    have "entityCount (scan_body stod cb fs lines s)
        = length (triangles (meshData (scan_body stod cb fs lines s)))"
      using scan_body_adds [of stod cb fs lines s] "1.prems"
      by (auto simp: addTriangle_def)
    with "1.IH" [OF True] show ?thesis
      by (simp only: scan_loop_step [OF True])
  qed
qed

lemma scan_body_marker_outside:
  "\<not> inEntitiesSection s \<Longrightarrow> face_marker_at lines (cursor s) \<Longrightarrow>
   scan_body stod cb fs lines s = s\<lparr>cursor := cursor s + 1\<rparr>"
  by (simp add: scan_body_def emit_triangle_def Let_def face_marker_at_def)

text \<open>
  C2.  The flag is false before the first iteration.  One iteration sets it exactly
  when the four lines at the cursor are \<^verbatim>\<open>0\<close>, \<^verbatim>\<open>SECTION\<close>, \<^verbatim>\<open>2\<close>, \<^verbatim>\<open>ENTITIES\<close>,
  clears it exactly when the two lines at the cursor are \<^verbatim>\<open>0\<close>, \<^verbatim>\<open>ENDSEC\<close>, and
  leaves it alone otherwise.  While the flag is false an iteration adds no triangle,
  keeps the counter and reports no progress, and at a \<^verbatim>\<open>0\<close>, \<^verbatim>\<open>3DFACE\<close> marker it only
  moves the cursor by one line.  An iteration that adds a triangle or counts one ran
  with the flag true at such a marker.  A line array without the four section lines
  anywhere yields no triangle at all.
\<close>

theorem entities_section_flag:
  fixes stod :: "string \<Rightarrow> ('d::zero) option"
  shows "\<not> inEntitiesSection (scan_init :: 'd scan_state)
    \<and> inEntitiesSection (scan_body stod cb fs lines s)
        = (if section_entities_at lines (cursor s) then True
           else if endsec_at lines (cursor s) then False
           else inEntitiesSection s)
    \<and> (\<not> inEntitiesSection s \<longrightarrow>
          meshData (scan_body stod cb fs lines s) = meshData s
        \<and> entityCount (scan_body stod cb fs lines s) = entityCount s
        \<and> reported (scan_body stod cb fs lines s) = reported s
        \<and> (face_marker_at lines (cursor s) \<longrightarrow>
             scan_body stod cb fs lines s = s\<lparr>cursor := cursor s + 1\<rparr>))
    \<and> (meshData (scan_body stod cb fs lines s) \<noteq> meshData s
         \<or> entityCount (scan_body stod cb fs lines s) \<noteq> entityCount s \<longrightarrow>
          inEntitiesSection s \<and> face_marker_at lines (cursor s))
    \<and> ((\<forall>i. \<not> section_entities_at lines i) \<longrightarrow>
          meshData (scan_loop stod cb fs lines scan_init) = MeshData_default
        \<and> entityCount (scan_loop stod cb fs lines (scan_init :: 'd scan_state)) = 0)"
proof -
  have init: "\<not> inEntitiesSection (scan_init :: 'd scan_state)"
    "meshData (scan_init :: 'd scan_state) = MeshData_default"
    "entityCount (scan_init :: 'd scan_state) = 0"
    by (simp_all add: scan_init_def)
  have flag: "inEntitiesSection (scan_body stod cb fs lines s)
        = (if section_entities_at lines (cursor s) then True
           else if endsec_at lines (cursor s) then False
           else inEntitiesSection s)"
    by (rule scan_body_flag)
  have outside: "\<not> inEntitiesSection s \<longrightarrow>
          meshData (scan_body stod cb fs lines s) = meshData s
        \<and> entityCount (scan_body stod cb fs lines s) = entityCount s
        \<and> reported (scan_body stod cb fs lines s) = reported s
        \<and> (face_marker_at lines (cursor s) \<longrightarrow>
             scan_body stod cb fs lines s = s\<lparr>cursor := cursor s + 1\<rparr>)"
  proof
    assume out: "\<not> inEntitiesSection s"
    have "face_marker_at lines (cursor s) \<longrightarrow>
        scan_body stod cb fs lines s = s\<lparr>cursor := cursor s + 1\<rparr>"
      using scan_body_marker_outside [OF out] by (rule impI)
    with scan_body_outside [OF out, of stod cb fs lines]
    show "meshData (scan_body stod cb fs lines s) = meshData s
        \<and> entityCount (scan_body stod cb fs lines s) = entityCount s
        \<and> reported (scan_body stod cb fs lines s) = reported s
        \<and> (face_marker_at lines (cursor s) \<longrightarrow>
             scan_body stod cb fs lines s = s\<lparr>cursor := cursor s + 1\<rparr>)"
      by (intro conjI) (erule conjE | assumption)+
  qed
  have emits: "meshData (scan_body stod cb fs lines s) \<noteq> meshData s
         \<or> entityCount (scan_body stod cb fs lines s) \<noteq> entityCount s \<longrightarrow>
          inEntitiesSection s \<and> face_marker_at lines (cursor s)"
  proof
    assume "meshData (scan_body stod cb fs lines s) \<noteq> meshData s
         \<or> entityCount (scan_body stod cb fs lines s) \<noteq> entityCount s"
    then have "meshData (scan_body stod cb fs lines s) \<noteq> meshData s
         \<or> entityCount (scan_body stod cb fs lines s) \<noteq> entityCount s
         \<or> reported (scan_body stod cb fs lines s) \<noteq> reported s"
      by (elim disjE) (rule disjI1, assumption, rule disjI2, rule disjI1, assumption)
    then show "inEntitiesSection s \<and> face_marker_at lines (cursor s)"
      by (rule scan_body_emits)
  qed
  have whole: "(\<forall>i. \<not> section_entities_at lines i) \<longrightarrow>
          meshData (scan_loop stod cb fs lines scan_init) = MeshData_default
        \<and> entityCount (scan_loop stod cb fs lines (scan_init :: 'd scan_state)) = 0"
  proof
    assume none: "\<forall>i. \<not> section_entities_at lines i"
    have "meshData (scan_loop stod cb fs lines scan_init) = meshData (scan_init :: 'd scan_state)
        \<and> entityCount (scan_loop stod cb fs lines scan_init)
          = entityCount (scan_init :: 'd scan_state)"
      using init(1) none by (intro scan_loop_no_section) simp_all
    then show "meshData (scan_loop stod cb fs lines scan_init) = MeshData_default
        \<and> entityCount (scan_loop stod cb fs lines (scan_init :: 'd scan_state)) = 0"
      by (simp only: init)
  qed
  show ?thesis
    by (rule conjI [OF init(1) conjI [OF flag conjI [OF outside conjI [OF emits whole]]]])
qed


theorem entities_section_flag_witness:
  "\<not> inEntitiesSection (scan_init :: real scan_state)
   \<and> face_marker_at face_outside_section (cursor (scan_init :: real scan_state))
   \<and> scan_body stod_plain (Some silent_callback) 1 face_outside_section scan_init = scan_init\<lparr>cursor := 1\<rparr>
   \<and> meshData (scan_loop stod_plain (Some silent_callback) 1 face_outside_section scan_init) = MeshData_default
   \<and> section_entities_at two_triangles (cursor (scan_init :: real scan_state))
   \<and> inEntitiesSection (scan_body stod_plain (Some silent_callback) 1 two_triangles scan_init)"
proof -
  have c0: "cursor (scan_init :: real scan_state) = 0"
    by (simp add: scan_init_def)
  have mark: "face_marker_at face_outside_section (cursor (scan_init :: real scan_state))"
    by (simp add: c0 face_marker_at_def face_outside_section_def)
  have none: "\<forall>i. \<not> section_entities_at face_outside_section i"
  proof (intro allI notI)
    fix i
    assume a: "section_entities_at face_outside_section i"
    then have "i < 7"
      by (simp add: section_entities_at_def face_outside_section_def)
    then consider "i = 0" | "i = 1" | "i = 2" | "i = 3" | "i = 4" | "i = 5" | "i = 6"
      by linarith
    then show False
      using a by cases (simp_all add: section_entities_at_def face_outside_section_def)
  qed
  have sec: "section_entities_at two_triangles (cursor (scan_init :: real scan_state))"
    by (simp add: c0 section_entities_at_def two_triangles_def)
  note t = entities_section_flag [of stod_plain "Some silent_callback" 1
      face_outside_section scan_init]
  note u = entities_section_flag [of stod_plain "Some silent_callback" 1
      two_triangles scan_init]
  note init = t [THEN conjunct1]
  note out = t [THEN conjunct2, THEN conjunct2, THEN conjunct1, rule_format, OF init]
  have ignored: "scan_body stod_plain (Some silent_callback) 1 face_outside_section scan_init
      = scan_init\<lparr>cursor := cursor (scan_init :: real scan_state) + 1\<rparr>"
    using out [THEN conjunct2, THEN conjunct2, THEN conjunct2] mark by (rule mp)
  then have ignored': "scan_body stod_plain (Some silent_callback) 1 face_outside_section scan_init
      = scan_init\<lparr>cursor := 1\<rparr>"
    by (simp only: c0 add_0)
  have empty: "meshData (scan_loop stod_plain (Some silent_callback) 1 face_outside_section scan_init)
      = MeshData_default"
    using t [THEN conjunct2, THEN conjunct2, THEN conjunct2, THEN conjunct2] none
    by (rule mp [THEN conjunct1])
  have inside: "inEntitiesSection (scan_body stod_plain (Some silent_callback) 1 two_triangles scan_init)"
    using u [THEN conjunct2, THEN conjunct1] sec by (simp only: if_True)
  show ?thesis
    by (rule conjI [OF init conjI [OF mark conjI [OF ignored' conjI [OF empty conjI [OF sec inside]]]]])
qed

section \<open>The result of a read\<close>

lemma readFile_reader:
  "fst (readFile stod rd (Opens content))
     = rd\<lparr>lastEntityCount := entityCount (scan_file stod rd content)\<rparr>"
  by (simp add: readFile_def parseFile_def scan_file_def Let_def
      split: option.splits thrown.splits prod.splits)

lemma readFile_calls:
  "fst (snd (readFile stod rd (Opens content)))
     = (if raised (scan_file stod rd content) = None
        then fst (reportProgress (progressCallback rd) 1 (reported (scan_file stod rd content)))
        else reported (scan_file stod rd content))"
  by (simp add: readFile_def parseFile_def scan_file_def Let_def
      split: option.splits thrown.splits prod.splits)

lemma readFile_result:
  "snd (snd (readFile stod rd (Opens content)))
     = (case raised (scan_file stod rd content) of
          Some StdException \<Rightarrow> Inl ParseError
        | Some OtherException \<Rightarrow> Inl (CallbackException OtherException)
        | None \<Rightarrow>
            (case snd (reportProgress (progressCallback rd) 1
                         (reported (scan_file stod rd content))) of
               Some e \<Rightarrow> Inl (CallbackException e)
             | None \<Rightarrow>
                 if triangles (meshData (scan_file stod rd content)) = []
                 then Inl NoEntitiesFound
                 else Inr (meshData (scan_file stod rd content))))"
  by (simp add: readFile_def parseFile_def scan_file_def Let_def MeshData_isEmpty_def
      split: option.splits thrown.splits prod.splits)

lemma readFile_Inr:
  assumes "readFile stod rd path = (rd', calls, Inr m)"
  shows "\<exists>content. path = Opens content \<and> m = meshData (scan_file stod rd content)
           \<and> triangles m \<noteq> []
           \<and> rd' = rd\<lparr>lastEntityCount := entityCount (scan_file stod rd content)\<rparr>
           \<and> raised (scan_file stod rd content) = None"
proof (cases path)
  case (Opens content)
  from assms have "fst (readFile stod rd path) = rd'" "snd (snd (readFile stod rd path)) = Inr m"
    by simp_all
  with Opens show ?thesis
    by (auto simp: readFile_reader readFile_result
        split: option.splits thrown.splits if_splits)
qed (use assms in \<open>simp_all add: readFile_def parseFile_def\<close>)

lemma reportProgress_never_throws:
  "never_throws cb \<Longrightarrow> snd (reportProgress cb p calls) = None"
  by (simp add: never_throws_def reportProgress_def split: option.splits)

lemma scan_file_never_throws:
  "never_throws (progressCallback rd) \<Longrightarrow> raised (scan_file stod rd content) = None"
  by (simp add: scan_file_def scan_loop_never_throws scan_init_def)

lemma scan_file_empty:
  "rawLines content = [] \<Longrightarrow> scan_file stod rd content = scan_init"
  by (simp add: scan_file_def scan_loop.simps scan_init_def)

lemma scan_file_quiet:
  assumes "(\<forall>i. \<not> section_entities_at (map trim_line (rawLines content)) i)
         \<or> (\<forall>i. \<not> face_marker_at (map trim_line (rawLines content)) i)"
  shows "triangles (meshData (scan_file stod rd content)) = []"
    and "reported (scan_file stod rd content) = []"
    and "raised (scan_file stod rd content) = None"
proof -
  have init: "\<not> inEntitiesSection (scan_init :: 'a scan_state)"
    "triangles (meshData (scan_init :: 'a scan_state)) = []"
    "reported (scan_init :: 'a scan_state) = []"
    "raised (scan_init :: 'a scan_state) = None"
    by (simp_all add: scan_init_def MeshData_default_def)
  from assms have "meshData (scan_file stod rd content) = meshData (scan_init :: 'a scan_state)
      \<and> entityCount (scan_file stod rd content) = entityCount (scan_init :: 'a scan_state)
      \<and> reported (scan_file stod rd content) = reported (scan_init :: 'a scan_state)
      \<and> raised (scan_file stod rd content) = raised (scan_init :: 'a scan_state)"
  proof
    assume "\<forall>i. \<not> section_entities_at (map trim_line (rawLines content)) i"
    then show ?thesis
      unfolding scan_file_def using init(1)
      by (intro scan_loop_no_section_quiet) simp_all
  next
    assume "\<forall>i. \<not> face_marker_at (map trim_line (rawLines content)) i"
    then show ?thesis
      unfolding scan_file_def
      by (intro scan_loop_no_face_quiet) simp
  qed
  with init show "triangles (meshData (scan_file stod rd content)) = []"
    and "reported (scan_file stod rd content) = []"
    and "raised (scan_file stod rd content) = None"
    by simp_all
qed

text \<open>
  C3 does not hold as stated: \<^verbatim>\<open>reportProgress(1.0)\<close> is called after the scan and
  before the mesh is tested, outside every handler.  With a callback that throws
  there, the read of an empty file, whose scan completes with no triangle, ends with
  the exception of the callback and not with \<open>NoEntitiesFound\<close>.
\<close>

theorem empty_mesh_is_an_error_counterexample:
  "raised (scan_file stod_plain \<lparr>progressCallback = Some throwing_callback, lastEntityCount = 0\<rparr>
       \<lparr>fileSize = 0, rawLines = []\<rparr>) = None
   \<and> triangles (meshData (scan_file stod_plain
         \<lparr>progressCallback = Some throwing_callback, lastEntityCount = 0\<rparr>
         \<lparr>fileSize = 0, rawLines = []\<rparr>)) = []
   \<and> snd (snd (readFile stod_plain \<lparr>progressCallback = Some throwing_callback, lastEntityCount = 0\<rparr>
         (Opens \<lparr>fileSize = 0, rawLines = []\<rparr>))) = Inl (CallbackException StdException)
   \<and> snd (snd (readFile stod_plain \<lparr>progressCallback = Some throwing_callback, lastEntityCount = 0\<rparr>
         (Opens \<lparr>fileSize = 0, rawLines = []\<rparr>))) \<noteq> Inl NoEntitiesFound"
  by (simp add: readFile_result scan_file_empty scan_init_def MeshData_default_def
      reportProgress_def throwing_callback_def)

text \<open>
  C3, amended.  A read whose scan completes returns the scanned mesh when it holds a
  triangle and fails with \<open>NoEntitiesFound\<close> when it holds none, provided the last call
  of the progress callback, with 1.0, returns; when the callback throws there, the read
  ends with that exception.  No read, whatever the path and the callback, returns an
  empty mesh.  An empty file, a file without the four lines that open the ENTITIES
  section and a file without a \<^verbatim>\<open>0\<close>, \<^verbatim>\<open>3DFACE\<close> marker have a scan that completes
  without a call, so they fail with \<open>NoEntitiesFound\<close> unless the callback throws at
  its first and only call.  With no callback, or one that never throws, every scan
  completes and every read with no triangle fails with \<open>NoEntitiesFound\<close>.
\<close>

theorem empty_mesh_is_an_error:
  fixes stod :: "string \<Rightarrow> ('d::zero) option"
  shows "(raised (scan_file stod rd content) = None \<longrightarrow>
          snd (snd (readFile stod rd (Opens content)))
            = (case snd (reportProgress (progressCallback rd) 1
                           (reported (scan_file stod rd content))) of
                 Some e \<Rightarrow> Inl (CallbackException e)
               | None \<Rightarrow>
                   if triangles (meshData (scan_file stod rd content)) = []
                   then Inl NoEntitiesFound
                   else Inr (meshData (scan_file stod rd content))))
    \<and> (\<forall>m. snd (snd (readFile stod rd path)) = Inr m \<longrightarrow> triangles m \<noteq> [])
    \<and> snd (snd (readFile stod rd (Opens \<lparr>fileSize = n, rawLines = []\<rparr>)))
        = (case snd (reportProgress (progressCallback rd) 1 []) of
             Some e \<Rightarrow> Inl (CallbackException e)
           | None \<Rightarrow> Inl NoEntitiesFound)
    \<and> ((\<forall>i. \<not> section_entities_at (map trim_line (rawLines content)) i)
         \<or> (\<forall>i. \<not> face_marker_at (map trim_line (rawLines content)) i) \<longrightarrow>
        snd (snd (readFile stod rd (Opens content)))
          = (case snd (reportProgress (progressCallback rd) 1 []) of
               Some e \<Rightarrow> Inl (CallbackException e)
             | None \<Rightarrow> Inl NoEntitiesFound))
    \<and> (never_throws (progressCallback rd) \<longrightarrow>
        snd (snd (readFile stod rd (Opens content)))
          = (if triangles (meshData (scan_file stod rd content)) = [] then Inl NoEntitiesFound
             else Inr (meshData (scan_file stod rd content))))"
proof -
  have a: "raised (scan_file stod rd content) = None \<longrightarrow>
          snd (snd (readFile stod rd (Opens content)))
            = (case snd (reportProgress (progressCallback rd) 1
                           (reported (scan_file stod rd content))) of
                 Some e \<Rightarrow> Inl (CallbackException e)
               | None \<Rightarrow>
                   if triangles (meshData (scan_file stod rd content)) = []
                   then Inl NoEntitiesFound
                   else Inr (meshData (scan_file stod rd content)))"
    by (simp add: readFile_result)
  have b: "\<forall>m. snd (snd (readFile stod rd path)) = Inr m \<longrightarrow> triangles m \<noteq> []"
  proof (intro allI impI)
    fix m
    assume r: "snd (snd (readFile stod rd path)) = Inr m"
    obtain rd' calls res where "readFile stod rd path = (rd', calls, res)"
      by (cases "readFile stod rd path") auto
    with r have "readFile stod rd path = (rd', calls, Inr m)"
      by simp
    then show "triangles m \<noteq> []"
      using readFile_Inr by blast
  qed
  have c: "snd (snd (readFile stod rd (Opens \<lparr>fileSize = n, rawLines = []\<rparr>)))
        = (case snd (reportProgress (progressCallback rd) 1 []) of
             Some e \<Rightarrow> Inl (CallbackException e)
           | None \<Rightarrow> Inl NoEntitiesFound)"
    by (simp add: readFile_result scan_file_empty scan_init_def MeshData_default_def)
  have d: "(\<forall>i. \<not> section_entities_at (map trim_line (rawLines content)) i)
         \<or> (\<forall>i. \<not> face_marker_at (map trim_line (rawLines content)) i) \<longrightarrow>
        snd (snd (readFile stod rd (Opens content)))
          = (case snd (reportProgress (progressCallback rd) 1 []) of
               Some e \<Rightarrow> Inl (CallbackException e)
             | None \<Rightarrow> Inl NoEntitiesFound)"
  proof
    assume h: "(\<forall>i. \<not> section_entities_at (map trim_line (rawLines content)) i)
         \<or> (\<forall>i. \<not> face_marker_at (map trim_line (rawLines content)) i)"
    show "snd (snd (readFile stod rd (Opens content)))
          = (case snd (reportProgress (progressCallback rd) 1 []) of
               Some e \<Rightarrow> Inl (CallbackException e)
             | None \<Rightarrow> Inl NoEntitiesFound)"
      by (simp add: readFile_result scan_file_quiet [OF h])
  qed
  have e: "never_throws (progressCallback rd) \<longrightarrow>
        snd (snd (readFile stod rd (Opens content)))
          = (if triangles (meshData (scan_file stod rd content)) = [] then Inl NoEntitiesFound
             else Inr (meshData (scan_file stod rd content)))"
    by (simp add: readFile_result scan_file_never_throws reportProgress_never_throws)
  show ?thesis
    by (rule conjI [OF a conjI [OF b conjI [OF c conjI [OF d e]]]])
qed

theorem empty_mesh_is_an_error_witness:
  "never_throws (Some silent_callback)
   \<and> snd (snd (readFile stod_plain \<lparr>progressCallback = Some silent_callback, lastEntityCount = 7\<rparr>
        (Opens \<lparr>fileSize = 0, rawLines = []\<rparr>))) = Inl NoEntitiesFound
   \<and> triangles (meshData (scan_file stod_plain \<lparr>progressCallback = Some silent_callback, lastEntityCount = 7\<rparr>
        \<lparr>fileSize = 40, rawLines = face_outside_section\<rparr>)) = []
   \<and> snd (snd (readFile stod_plain \<lparr>progressCallback = Some silent_callback, lastEntityCount = 7\<rparr>
        (Opens \<lparr>fileSize = 40, rawLines = face_outside_section\<rparr>))) = Inl NoEntitiesFound
   \<and> snd (snd (readFile stod_plain \<lparr>progressCallback = Some silent_callback, lastEntityCount = 7\<rparr>
        (Opens \<lparr>fileSize = 400, rawLines = two_triangles_crlf\<rparr>)))
       = Inr \<lparr>triangles =
           [Triangle \<lparr>x = 0, y = 0, z = 0\<rparr> \<lparr>x = 10, y = 0, z = 0\<rparr> \<lparr>x = 5, y = 17 / 2, z = 0\<rparr>,
            Triangle \<lparr>x = 1, y = 2, z = 3\<rparr> \<lparr>x = 4, y = 5, z = 6\<rparr> \<lparr>x = 7, y = 8, z = 9\<rparr>]\<rparr>
   \<and> triangles \<lparr>triangles =
           [Triangle \<lparr>x = 0, y = 0, z = 0\<rparr> \<lparr>x = 10, y = 0, z = 0\<rparr> \<lparr>x = 5, y = 17 / 2, z = 0\<rparr>,
            Triangle \<lparr>x = 1, y = 2, z = 3\<rparr> \<lparr>x = 4, y = 5, z = 6\<rparr> \<lparr>x = 7, y = 8, z = (9::real)\<rparr>]\<rparr> \<noteq> []
   \<and> raised (scan_file stod_plain \<lparr>progressCallback = Some throwing_callback, lastEntityCount = 7\<rparr>
        \<lparr>fileSize = 40, rawLines = face_outside_section\<rparr>) = None
   \<and> snd (snd (readFile stod_plain \<lparr>progressCallback = Some throwing_callback, lastEntityCount = 7\<rparr>
        (Opens \<lparr>fileSize = 40, rawLines = face_outside_section\<rparr>)))
       = Inl (CallbackException StdException)"
proof -
  note t = empty_mesh_is_an_error [of stod_plain
      "\<lparr>progressCallback = Some silent_callback, lastEntityCount = 7\<rparr>"
      "\<lparr>fileSize = 40, rawLines = face_outside_section\<rparr>"
      "Opens \<lparr>fileSize = 400, rawLines = two_triangles_crlf\<rparr>" 0]
  note u = empty_mesh_is_an_error [of stod_plain
      "\<lparr>progressCallback = Some throwing_callback, lastEntityCount = 7\<rparr>"
      "\<lparr>fileSize = 40, rawLines = face_outside_section\<rparr>"
      "Opens \<lparr>fileSize = 400, rawLines = two_triangles_crlf\<rparr>" 0]
  have quiet: "never_throws (Some silent_callback)"
    by (simp add: never_throws_def silent_callback_def)
  then have quiet': "never_throws (progressCallback
      \<lparr>progressCallback = Some silent_callback, lastEntityCount = 7\<rparr>)"
    by simp
  have empty: "snd (snd (readFile stod_plain \<lparr>progressCallback = Some silent_callback, lastEntityCount = 7\<rparr>
        (Opens \<lparr>fileSize = 0, rawLines = []\<rparr>))) = Inl NoEntitiesFound"
    using t [THEN conjunct2, THEN conjunct2, THEN conjunct1]
    by (simp add: reportProgress_def silent_callback_def)
  have none: "triangles (meshData (scan_file stod_plain \<lparr>progressCallback = Some silent_callback, lastEntityCount = 7\<rparr>
        \<lparr>fileSize = 40, rawLines = face_outside_section\<rparr>)) = []"
    by code_simp
  have two: "snd (snd (readFile stod_plain \<lparr>progressCallback = Some silent_callback, lastEntityCount = 7\<rparr>
        (Opens \<lparr>fileSize = 400, rawLines = two_triangles_crlf\<rparr>)))
       = Inr \<lparr>triangles =
           [Triangle \<lparr>x = 0, y = 0, z = 0\<rparr> \<lparr>x = 10, y = 0, z = 0\<rparr> \<lparr>x = 5, y = 17 / 2, z = 0\<rparr>,
            Triangle \<lparr>x = 1, y = 2, z = 3\<rparr> \<lparr>x = 4, y = 5, z = 6\<rparr> \<lparr>x = 7, y = 8, z = 9\<rparr>]\<rparr>"
    by code_simp
  have outside: "snd (snd (readFile stod_plain \<lparr>progressCallback = Some silent_callback, lastEntityCount = 7\<rparr>
        (Opens \<lparr>fileSize = 40, rawLines = face_outside_section\<rparr>))) = Inl NoEntitiesFound"
    using t [THEN conjunct2, THEN conjunct2, THEN conjunct2, THEN conjunct2, rule_format, OF quiet']
      none
    by (simp only: refl if_True)
  have nonempty: "triangles \<lparr>triangles =
           [Triangle \<lparr>x = 0, y = 0, z = 0\<rparr> \<lparr>x = 10, y = 0, z = 0\<rparr> \<lparr>x = 5, y = 17 / 2, z = 0\<rparr>,
            Triangle \<lparr>x = 1, y = 2, z = 3\<rparr> \<lparr>x = 4, y = 5, z = 6\<rparr> \<lparr>x = 7, y = 8, z = (9::real)\<rparr>]\<rparr> \<noteq> []"
    using t [THEN conjunct2, THEN conjunct1, rule_format, OF two] .
  have completes: "raised (scan_file stod_plain
        \<lparr>progressCallback = Some throwing_callback, lastEntityCount = 7\<rparr>
        \<lparr>fileSize = 40, rawLines = face_outside_section\<rparr>) = None"
    by code_simp
  have rep: "reported (scan_file stod_plain
        \<lparr>progressCallback = Some throwing_callback, lastEntityCount = 7\<rparr>
        \<lparr>fileSize = 40, rawLines = face_outside_section\<rparr>) = []"
    by code_simp
  have thrown: "snd (snd (readFile stod_plain \<lparr>progressCallback = Some throwing_callback, lastEntityCount = 7\<rparr>
        (Opens \<lparr>fileSize = 40, rawLines = face_outside_section\<rparr>)))
       = Inl (CallbackException StdException)"
    using u [THEN conjunct1, rule_format, OF completes]
    by (simp add: rep reportProgress_def throwing_callback_def)
  show ?thesis
    by (rule conjI [OF quiet conjI [OF empty conjI [OF none conjI [OF outside
          conjI [OF two conjI [OF nonempty conjI [OF completes thrown]]]]]]])
qed

section \<open>The entity counter\<close>

lemma scan_file_count:
  "entityCount (scan_file stod rd content) = length (triangles (meshData (scan_file stod rd content)))"
  unfolding scan_file_def
  by (rule scan_loop_count) (simp add: scan_init_def MeshData_default_def)

lemma scan_file_reset:
  "scan_file stod (rd\<lparr>lastEntityCount := c\<rparr>) content = scan_file stod rd content"
  by (simp add: scan_file_def)

text \<open>
  C8.  After every successful read \<^verbatim>\<open>getLastEntityCount()\<close> is the triangle count of
  the returned mesh.  After any read that opened the file it is the number of
  triangles the scan collected, whatever the counter held before: the scan starts it
  at zero, and an iteration either leaves mesh and counter alone or appends one
  triangle and adds one.  The file of two faces gives two triangles and a count of 2.
\<close>

theorem entity_count_is_triangle_count:
  fixes stod :: "string \<Rightarrow> ('d::zero) option"
  shows "(\<forall>rd' calls m. readFile stod rd path = (rd', calls, Inr m) \<longrightarrow>
            getLastEntityCount rd' = getTriangleCount m)
    \<and> getLastEntityCount (fst (readFile stod rd (Opens content)))
        = getTriangleCount (meshData (scan_file stod rd content))
    \<and> fst (readFile stod (rd\<lparr>lastEntityCount := c\<rparr>) (Opens content))
        = fst (readFile stod rd (Opens content))
    \<and> entityCount (scan_init :: 'd scan_state) = 0
    \<and> ((meshData (scan_body stod cb fs lines s) = meshData s
          \<and> entityCount (scan_body stod cb fs lines s) = entityCount s)
        \<or> (\<exists>t. meshData (scan_body stod cb fs lines s) = addTriangle (meshData s) t
              \<and> entityCount (scan_body stod cb fs lines s) = entityCount s + 1))"
proof -
  have a: "\<forall>rd' calls m. readFile stod rd path = (rd', calls, Inr m) \<longrightarrow>
            getLastEntityCount rd' = getTriangleCount m"
  proof (intro allI impI)
    fix rd' calls m
    assume "readFile stod rd path = (rd', calls, Inr m)"
    then obtain content where "m = meshData (scan_file stod rd content)"
      "rd' = rd\<lparr>lastEntityCount := entityCount (scan_file stod rd content)\<rparr>"
      using readFile_Inr by blast
    then show "getLastEntityCount rd' = getTriangleCount m"
      by (simp add: getLastEntityCount_def getTriangleCount_def scan_file_count)
  qed
  have b: "getLastEntityCount (fst (readFile stod rd (Opens content)))
        = getTriangleCount (meshData (scan_file stod rd content))"
    by (simp add: readFile_reader getLastEntityCount_def getTriangleCount_def scan_file_count)
  have c: "fst (readFile stod (rd\<lparr>lastEntityCount := c\<rparr>) (Opens content))
        = fst (readFile stod rd (Opens content))"
    by (simp add: readFile_reader scan_file_reset)
  have d: "entityCount (scan_init :: 'd scan_state) = 0"
    by (simp add: scan_init_def)
  show ?thesis
    by (rule conjI [OF a conjI [OF b conjI [OF c conjI [OF d scan_body_adds]]]])
qed

theorem entity_count_is_triangle_count_witness:
  "readFile stod_plain \<lparr>progressCallback = Some silent_callback, lastEntityCount = 7\<rparr>
        (Opens \<lparr>fileSize = 400, rawLines = two_triangles_crlf\<rparr>)
     = (\<lparr>progressCallback = Some silent_callback, lastEntityCount = 2\<rparr>, [1],
        Inr \<lparr>triangles =
           [Triangle \<lparr>x = 0, y = 0, z = 0\<rparr> \<lparr>x = 10, y = 0, z = 0\<rparr> \<lparr>x = 5, y = 17 / 2, z = 0\<rparr>,
            Triangle \<lparr>x = 1, y = 2, z = 3\<rparr> \<lparr>x = 4, y = 5, z = 6\<rparr> \<lparr>x = 7, y = 8, z = 9\<rparr>]\<rparr>)
   \<and> getLastEntityCount \<lparr>progressCallback = Some silent_callback, lastEntityCount = 2\<rparr> = 2
   \<and> getTriangleCount \<lparr>triangles =
           [Triangle \<lparr>x = 0, y = 0, z = 0\<rparr> \<lparr>x = 10, y = 0, z = 0\<rparr> \<lparr>x = 5, y = 17 / 2, z = 0\<rparr>,
            Triangle \<lparr>x = 1, y = 2, z = 3\<rparr> \<lparr>x = 4, y = 5, z = 6\<rparr> \<lparr>x = 7, y = 8, z = (9::real)\<rparr>]\<rparr> = 2"
proof -
  have scan: "scan_file stod_plain \<lparr>progressCallback = Some silent_callback, lastEntityCount = 7\<rparr>
        \<lparr>fileSize = 400, rawLines = two_triangles_crlf\<rparr>
     = \<lparr>inEntitiesSection = False, cursor = 56,
        meshData = \<lparr>triangles =
           [Triangle \<lparr>x = 0, y = 0, z = 0\<rparr> \<lparr>x = 10, y = 0, z = 0\<rparr> \<lparr>x = 5, y = 17 / 2, z = 0\<rparr>,
            Triangle \<lparr>x = 1, y = 2, z = 3\<rparr> \<lparr>x = 4, y = 5, z = 6\<rparr> \<lparr>x = 7, y = 8, z = 9\<rparr>]\<rparr>,
        entityCount = 2, reported = [], raised = None\<rparr>"
    by code_simp
  have run: "readFile stod_plain \<lparr>progressCallback = Some silent_callback, lastEntityCount = 7\<rparr>
        (Opens \<lparr>fileSize = 400, rawLines = two_triangles_crlf\<rparr>)
     = (\<lparr>progressCallback = Some silent_callback, lastEntityCount = 2\<rparr>, [1],
        Inr \<lparr>triangles =
           [Triangle \<lparr>x = 0, y = 0, z = 0\<rparr> \<lparr>x = 10, y = 0, z = 0\<rparr> \<lparr>x = 5, y = 17 / 2, z = 0\<rparr>,
            Triangle \<lparr>x = 1, y = 2, z = 3\<rparr> \<lparr>x = 4, y = 5, z = 6\<rparr> \<lparr>x = 7, y = 8, z = 9\<rparr>]\<rparr>)"
    by (rule prod_eqI; (rule prod_eqI)?)
       (simp_all add: readFile_reader readFile_calls readFile_result scan reportProgress_def
         silent_callback_def std_max_def std_min_def)
  have same: "getLastEntityCount \<lparr>progressCallback = Some silent_callback, lastEntityCount = 2\<rparr>
      = getTriangleCount \<lparr>triangles =
           [Triangle \<lparr>x = 0, y = 0, z = 0\<rparr> \<lparr>x = 10, y = 0, z = 0\<rparr> \<lparr>x = 5, y = 17 / 2, z = 0\<rparr>,
            Triangle \<lparr>x = 1, y = 2, z = 3\<rparr> \<lparr>x = 4, y = 5, z = 6\<rparr> \<lparr>x = 7, y = 8, z = (9::real)\<rparr>]\<rparr>"
    using entity_count_is_triangle_count [of stod_plain
        "\<lparr>progressCallback = Some silent_callback, lastEntityCount = 7\<rparr>"
        "Opens \<lparr>fileSize = 400, rawLines = two_triangles_crlf\<rparr>",
        THEN conjunct1, rule_format, OF run] .
  have two: "getLastEntityCount \<lparr>progressCallback = Some silent_callback, lastEntityCount = 2\<rparr> = 2"
    by (simp add: getLastEntityCount_def)
  with same have tri: "getTriangleCount \<lparr>triangles =
           [Triangle \<lparr>x = 0, y = 0, z = 0\<rparr> \<lparr>x = 10, y = 0, z = 0\<rparr> \<lparr>x = 5, y = 17 / 2, z = 0\<rparr>,
            Triangle \<lparr>x = 1, y = 2, z = 3\<rparr> \<lparr>x = 4, y = 5, z = 6\<rparr> \<lparr>x = 7, y = 8, z = (9::real)\<rparr>]\<rparr> = 2"
    by simp
  show ?thesis
    by (rule conjI [OF run conjI [OF two tri]])
qed

section \<open>Progress reports\<close>

lemma clamp_range: "0 \<le> std_max 0 (std_min 1 p)" "std_max 0 (std_min 1 p) \<le> 1"
  by (simp_all add: std_max_def std_min_def)

lemma clamp_mono: "p \<le> q \<Longrightarrow> std_max 0 (std_min 1 p) \<le> std_max 0 (std_min 1 q)"
  by (simp add: std_max_def std_min_def)

lemma clamp_one: "std_max 0 (std_min 1 1) = 1"
  by (simp add: std_max_def std_min_def)

lemma clamp_cursor_mono:
  "i \<le> j \<Longrightarrow> std_max 0 (std_min 1 (real i / real n)) \<le> std_max 0 (std_min 1 (real j / real n))"
  by (intro clamp_mono divide_right_mono) simp_all

text \<open>
  An iteration makes no call, or one call with the clamped quotient of a line index
  beyond the cursor, which is the new cursor when the call returns.
\<close>

lemma emit_triangle_reported:
  "reported (emit_triangle cb fs lines s j t) = reported s
   \<or> (cb \<noteq> None
       \<and> (raised (emit_triangle cb fs lines s j t) = None \<longrightarrow>
            cursor (emit_triangle cb fs lines s j t) = j)
       \<and> reported (emit_triangle cb fs lines s j t)
           = reported s @ [std_max 0 (std_min 1 (real j / real (length lines)))])"
  by (cases cb) (auto simp: emit_triangle_def Let_def reportProgress_def split: option.splits)

lemma scan_body_reported:
  "reported (scan_body stod cb fs lines s) = reported s
   \<or> (cb \<noteq> None
       \<and> (\<exists>j. cursor s < j
             \<and> (raised (scan_body stod cb fs lines s) = None \<longrightarrow>
                  cursor (scan_body stod cb fs lines s) = j)
             \<and> reported (scan_body stod cb fs lines s)
                 = reported s @ [std_max 0 (std_min 1 (real j / real (length lines)))]))"
proof -
  define j where "j = fst (parse3DFaceFromLines stod lines (cursor s + 2))"
  define tri where "tri = snd (parse3DFaceFromLines stod lines (cursor s + 2))"
  have p: "parse3DFaceFromLines stod lines (cursor s + 2) = (j, tri)"
    by (simp add: j_def tri_def)
  have "cursor s + 2 \<le> j"
    unfolding j_def by (rule parse3DFaceFromLines_index)
  then have j: "cursor s < j"
    by simp
  have "reported (scan_body stod cb fs lines s) = reported s
      \<or> (\<exists>t. scan_body stod cb fs lines s = emit_triangle cb fs lines s j t)"
    unfolding scan_body_def Let_def p
    by (cases tri) auto
  then show ?thesis
  proof
    assume "reported (scan_body stod cb fs lines s) = reported s"
    then show ?thesis ..
  next
    assume "\<exists>t. scan_body stod cb fs lines s = emit_triangle cb fs lines s j t"
    then obtain t where "scan_body stod cb fs lines s = emit_triangle cb fs lines s j t" ..
    with emit_triangle_reported [of cb fs lines s j t] j show ?thesis
      by auto
  qed
qed


text \<open>
  An iteration that starts from ordered calls below the clamped quotient of the cursor
  leaves the calls ordered and between 0 and 1, also when its call throws; when no call
  has thrown they stay below the clamped quotient of the new cursor.
\<close>

lemma progress_invI:
  "sorted (reported s) \<Longrightarrow>
   (\<And>v. v \<in> set (reported s) \<Longrightarrow>
      0 \<le> v \<and> v \<le> std_max 0 (std_min 1 (real (cursor s) / real (length lines)))) \<Longrightarrow>
   progress_inv lines s"
  unfolding progress_inv_def list_all_iff by blast

lemma progress_invD:
  assumes "progress_inv lines s"
  shows "sorted (reported s)"
    and "v \<in> set (reported s) \<Longrightarrow>
      0 \<le> v \<and> v \<le> std_max 0 (std_min 1 (real (cursor s) / real (length lines)))"
  using assms unfolding progress_inv_def list_all_iff by blast+

lemma scan_body_progress:
  assumes "progress_inv lines s"
  shows "sorted (reported (scan_body stod cb fs lines s))"
    and "\<And>v. v \<in> set (reported (scan_body stod cb fs lines s)) \<Longrightarrow> 0 \<le> v \<and> v \<le> 1"
    and "raised (scan_body stod cb fs lines s) = None \<Longrightarrow>
         progress_inv lines (scan_body stod cb fs lines s)"
proof -
  let ?s' = "scan_body stod cb fs lines s"
  let ?clamp = "\<lambda>i. std_max 0 (std_min 1 (real i / real (length lines)))"
  note srt = progress_invD(1) [OF assms]
  note old = progress_invD(2) [OF assms]
  have upto: "0 \<le> v \<and> v \<le> ?clamp j" if "v \<in> set (reported s)" "cursor s \<le> j" for v j
    using old [OF that(1)] clamp_cursor_mono [OF that(2), of "length lines"] by linarith
  have one: "0 \<le> v \<and> v \<le> 1" if "v \<in> set (reported s)" for v
    using old [OF that] clamp_range(2) [of "real (cursor s) / real (length lines)"] by linarith
  have "sorted (reported ?s') \<and> (\<forall>v\<in>set (reported ?s'). 0 \<le> v \<and> v \<le> 1)
      \<and> (raised ?s' = None \<longrightarrow> progress_inv lines ?s')"
    using scan_body_reported [of stod cb fs lines s]
  proof
    assume same: "reported ?s' = reported s"
    have s1: "sorted (reported ?s')"
      unfolding same by (rule srt)
    have s2: "\<forall>v\<in>set (reported ?s'). 0 \<le> v \<and> v \<le> 1"
    proof
      fix v assume "v \<in> set (reported ?s')"
      then have "v \<in> set (reported s)" unfolding same .
      then show "0 \<le> v \<and> v \<le> 1" by (rule one)
    qed
    have s3: "raised ?s' = None \<longrightarrow> progress_inv lines ?s'"
    proof
      assume "raised ?s' = None"
      then have "cursor s < cursor ?s'"
        by (rule scan_body_cursor)
      then have le: "cursor s \<le> cursor ?s'"
        by simp
      show "progress_inv lines ?s'"
      proof (rule progress_invI)
        show "sorted (reported ?s')" by (rule s1)
      next
        fix v assume "v \<in> set (reported ?s')"
        then have "v \<in> set (reported s)" unfolding same .
        then show "0 \<le> v \<and> v \<le> ?clamp (cursor ?s')"
          using le by (rule upto)
      qed
    qed
    show ?thesis
      by (rule conjI [OF s1 conjI [OF s2 s3]])
  next
    assume "cb \<noteq> None \<and> (\<exists>j. cursor s < j \<and> (raised ?s' = None \<longrightarrow> cursor ?s' = j)
        \<and> reported ?s' = reported s @ [?clamp j])"
    then have "\<exists>j. cursor s < j \<and> (raised ?s' = None \<longrightarrow> cursor ?s' = j)
        \<and> reported ?s' = reported s @ [?clamp j]"
      by (rule conjunct2)
    then obtain j where pj: "cursor s < j \<and> (raised ?s' = None \<longrightarrow> cursor ?s' = j)
        \<and> reported ?s' = reported s @ [?clamp j]" ..
    note j = pj [THEN conjunct1]
    note c = pj [THEN conjunct2, THEN conjunct1]
    note r = pj [THEN conjunct2, THEN conjunct2]
    from j have le: "cursor s \<le> j" by simp
    have cj: "0 \<le> ?clamp j" "?clamp j \<le> 1"
      by (rule clamp_range)+
    have new: "0 \<le> v \<and> v \<le> ?clamp j" if "v \<in> set (reported ?s')" for v
    proof -
      from that have "v = ?clamp j \<or> v \<in> set (reported s)"
        unfolding r by simp
      then show ?thesis
      proof
        assume "v = ?clamp j"
        with cj(1) show ?thesis by simp
      next
        assume "v \<in> set (reported s)"
        then show ?thesis using le by (rule upto)
      qed
    qed
    have "\<forall>v\<in>set (reported s). v \<le> ?clamp j"
    proof
      fix v assume "v \<in> set (reported s)"
      then have "0 \<le> v \<and> v \<le> ?clamp j" using le by (rule upto)
      then show "v \<le> ?clamp j" ..
    qed
    with srt have s1: "sorted (reported ?s')"
      unfolding r by (simp only: sorted_append) simp
    have s2: "\<forall>v\<in>set (reported ?s'). 0 \<le> v \<and> v \<le> 1"
    proof
      fix v assume "v \<in> set (reported ?s')"
      then have "0 \<le> v \<and> v \<le> ?clamp j" by (rule new)
      with cj(2) show "0 \<le> v \<and> v \<le> 1" by linarith
    qed
    have s3: "raised ?s' = None \<longrightarrow> progress_inv lines ?s'"
    proof
      assume "raised ?s' = None"
      with c have eq: "cursor ?s' = j" by (rule mp)
      show "progress_inv lines ?s'"
      proof (rule progress_invI)
        show "sorted (reported ?s')" by (rule s1)
      next
        fix v assume "v \<in> set (reported ?s')"
        then show "0 \<le> v \<and> v \<le> ?clamp (cursor ?s')"
          unfolding eq by (rule new)
      qed
    qed
    show ?thesis
      by (rule conjI [OF s1 conjI [OF s2 s3]])
  qed
  then show "sorted (reported ?s')"
    and "\<And>v. v \<in> set (reported ?s') \<Longrightarrow> 0 \<le> v \<and> v \<le> 1"
    and "raised ?s' = None \<Longrightarrow> progress_inv lines ?s'"
    by simp_all
qed

text \<open>
  So the calls of the whole scan are ordered and between 0 and 1, whether it completes
  or is interrupted by the callback; without a callback there is none.
\<close>

lemma scan_loop_progress:
  "sorted (reported s) \<Longrightarrow> (\<And>v. v \<in> set (reported s) \<Longrightarrow> 0 \<le> v \<and> v \<le> 1) \<Longrightarrow>
   (raised s = None \<Longrightarrow> progress_inv lines s) \<Longrightarrow>
   sorted (reported (scan_loop stod cb fs lines s))
   \<and> (\<forall>v\<in>set (reported (scan_loop stod cb fs lines s)). 0 \<le> v \<and> v \<le> 1)"
proof (induction stod cb fs lines s rule: scan_loop.induct)
  case (1 stod cb fs lines s)
  show ?case
  proof (cases "cursor s < length lines \<and> raised s = None")
    case False
    from "1.prems"(1,2) show ?thesis
      unfolding scan_loop_done [OF False] by blast
  next
    case True
    then have inv: "progress_inv lines s"
      by (intro "1.prems"(3)) simp
    have step: "sorted (reported (scan_loop stod cb fs lines (scan_body stod cb fs lines s)))
        \<and> (\<forall>v\<in>set (reported (scan_loop stod cb fs lines (scan_body stod cb fs lines s))).
              0 \<le> v \<and> v \<le> 1)"
      by (rule "1.IH" [OF True]) (rule scan_body_progress [OF inv]; assumption)+
    show ?thesis
      unfolding scan_loop_step [OF True] by (rule step)
  qed
qed

lemma scan_loop_no_callback:
  "reported (scan_loop stod None fs lines s) = reported s"
proof (induction stod "None :: (real list \<Rightarrow> real \<Rightarrow> thrown option) option" fs lines s
    rule: scan_loop.induct)
  case (1 stod fs lines s)
  show ?case
  proof (cases "cursor s < length lines \<and> raised s = None")
    case False
    show ?thesis
      by (simp only: scan_loop_done [OF False])
  next
    case True
    have "reported (scan_body stod None fs lines s) = reported s"
      using scan_body_reported [of stod None fs lines s] by simp
    with "1.hyps" [OF True] show ?thesis
      by (simp only: scan_loop_step [OF True])
  qed
qed

lemma progress_inv_init: "progress_inv lines scan_init"
  by (simp add: progress_inv_def scan_init_def)

lemma scan_file_progress:
  "sorted (reported (scan_file stod rd content))
   \<and> (\<forall>v\<in>set (reported (scan_file stod rd content)). 0 \<le> v \<and> v \<le> 1)"
  unfolding scan_file_def
  by (rule scan_loop_progress) (simp_all add: progress_inv_init, simp_all add: scan_init_def)

text \<open>
  C5.  The values a read that opened the file passes to the progress callback, in call
  order, are non-decreasing and lie between 0 and 1, also when a call throws.  When a
  callback is set and the scan completes (no call made during the scan throws, as is the
  case for a callback that never throws) there is at least one call and the last value
  is exactly 1, whether the read then returns a mesh or fails; when none is set there is
  no call.  Every iteration of the scan keeps the reported values ordered and between 0
  and 1, and, unless its call throws, below the clamped quotient of the cursor and the
  number of lines.  The quotient is the exact one; a correctly rounded quotient is
  ordered the same way.
\<close>

theorem progress_reports_ordered:
  fixes stod :: "string \<Rightarrow> ('d::zero) option"
  assumes "readFile stod rd (Opens content) = (rd', calls, res)"
  shows "sorted calls
    \<and> (\<forall>v\<in>set calls. 0 \<le> v \<and> v \<le> 1)
    \<and> (progressCallback rd \<noteq> None \<and> raised (scan_file stod rd content) = None \<longrightarrow>
         calls \<noteq> [] \<and> last calls = 1)
    \<and> (progressCallback rd \<noteq> None \<and> never_throws (progressCallback rd) \<longrightarrow>
         calls \<noteq> [] \<and> last calls = 1)
    \<and> (progressCallback rd = None \<longrightarrow> calls = [])
    \<and> (progress_inv lines s \<longrightarrow>
         sorted (reported (scan_body stod cb fs lines s))
         \<and> (\<forall>v\<in>set (reported (scan_body stod cb fs lines s)). 0 \<le> v \<and> v \<le> 1)
         \<and> (raised (scan_body stod cb fs lines s) = None \<longrightarrow>
              progress_inv lines (scan_body stod cb fs lines s)))
    \<and> (never_throws cb \<and> raised s = None \<and> progress_inv lines s \<longrightarrow>
         progress_inv lines (scan_body stod cb fs lines s))"
proof -
  from assms have "fst (snd (readFile stod rd (Opens content))) = calls"
    by simp
  then have calls: "calls = (if raised (scan_file stod rd content) = None
        then fst (reportProgress (progressCallback rd) 1 (reported (scan_file stod rd content)))
        else reported (scan_file stod rd content))"
    by (simp only: readFile_calls)
  note sf = scan_file_progress [of stod rd content]
  have none: "reported (scan_file stod rd content) = []" if "progressCallback rd = None"
    using that scan_loop_no_callback [of stod "fileSize content"
        "map trim_line (rawLines content)" "scan_init :: 'd scan_state"]
    by (simp add: scan_file_def scan_init_def)
  have fin: "fst (reportProgress (progressCallback rd) 1 (reported (scan_file stod rd content)))
      = (if progressCallback rd = None then [] else reported (scan_file stod rd content) @ [1])"
    using none by (cases "progressCallback rd") (simp_all add: reportProgress_def clamp_one)
  have a: "sorted calls"
    using sf unfolding calls fin by (simp add: sorted_append)
  have b: "\<forall>v\<in>set calls. 0 \<le> v \<and> v \<le> 1"
    using sf unfolding calls fin by auto
  have c: "progressCallback rd \<noteq> None \<and> raised (scan_file stod rd content) = None \<longrightarrow>
         calls \<noteq> [] \<and> last calls = 1"
    unfolding calls fin by simp
  have d: "progressCallback rd \<noteq> None \<and> never_throws (progressCallback rd) \<longrightarrow>
         calls \<noteq> [] \<and> last calls = 1"
    using c scan_file_never_throws [of rd stod content] by blast
  have e: "progressCallback rd = None \<longrightarrow> calls = []"
    using none unfolding calls fin by simp
  have f: "progress_inv lines s \<longrightarrow>
         sorted (reported (scan_body stod cb fs lines s))
         \<and> (\<forall>v\<in>set (reported (scan_body stod cb fs lines s)). 0 \<le> v \<and> v \<le> 1)
         \<and> (raised (scan_body stod cb fs lines s) = None \<longrightarrow>
              progress_inv lines (scan_body stod cb fs lines s))"
    using scan_body_progress [where lines = lines and s = s and stod = stod and cb = cb and fs = fs]
    by blast
  have g: "never_throws cb \<and> raised s = None \<and> progress_inv lines s \<longrightarrow>
         progress_inv lines (scan_body stod cb fs lines s)"
  proof
    assume h: "never_throws cb \<and> raised s = None \<and> progress_inv lines s"
    then have "raised (scan_body stod cb fs lines s) = raised s"
      by (intro scan_body_never_throws) (rule conjunct1)
    with h have "raised (scan_body stod cb fs lines s) = None"
      by simp
    with h f show "progress_inv lines (scan_body stod cb fs lines s)"
      by simp
  qed
  show ?thesis
    by (rule conjI [OF a conjI [OF b conjI [OF c conjI [OF d conjI [OF e conjI [OF f g]]]]]])
qed

theorem progress_reports_ordered_witness:
  "readFile stod_plain \<lparr>progressCallback = Some silent_callback, lastEntityCount = 7\<rparr>
        (Opens \<lparr>fileSize = 0, rawLines = []\<rparr>)
     = (\<lparr>progressCallback = Some silent_callback, lastEntityCount = 0\<rparr>, [1], Inl NoEntitiesFound)
   \<and> sorted [1 :: real] \<and> last [1 :: real] = 1
   \<and> progress_inv two_triangles ninety_nine_counted
   \<and> reported (scan_body stod_plain (Some silent_callback) 400 two_triangles ninety_nine_counted)
       = [1 / 28, 13 / 28]
   \<and> progress_inv two_triangles
        (scan_body stod_plain (Some silent_callback) 400 two_triangles ninety_nine_counted)
   \<and> raised (scan_body stod_plain (Some throwing_callback) 400 two_triangles ninety_nine_counted)
       = Some StdException
   \<and> sorted (reported
        (scan_body stod_plain (Some throwing_callback) 400 two_triangles ninety_nine_counted))"
proof -
  have scan: "scan_file stod_plain \<lparr>progressCallback = Some silent_callback, lastEntityCount = 7\<rparr>
        \<lparr>fileSize = 0, rawLines = []\<rparr> = scan_init"
    by (rule scan_file_empty) simp
  have run: "readFile stod_plain \<lparr>progressCallback = Some silent_callback, lastEntityCount = 7\<rparr>
        (Opens \<lparr>fileSize = 0, rawLines = []\<rparr>)
     = (\<lparr>progressCallback = Some silent_callback, lastEntityCount = 0\<rparr>, [1], Inl NoEntitiesFound)"
    by (rule prod_eqI; (rule prod_eqI)?)
       (simp_all add: readFile_reader readFile_calls readFile_result scan reportProgress_def
         silent_callback_def std_max_def std_min_def scan_init_def MeshData_default_def)
  note t = progress_reports_ordered [OF run, of two_triangles ninety_nine_counted]
  have cb: "progressCallback \<lparr>progressCallback = Some silent_callback, lastEntityCount = 7\<rparr> \<noteq> None
      \<and> raised (scan_file stod_plain
            \<lparr>progressCallback = Some silent_callback, lastEntityCount = 7\<rparr>
            \<lparr>fileSize = 0, rawLines = []\<rparr>) = None"
    by (simp add: scan scan_init_def)
  have inv: "progress_inv two_triangles ninety_nine_counted"
    by (simp add: progress_inv_def ninety_nine_counted_def two_triangles_def std_max_def std_min_def)
  have rep: "reported (scan_body stod_plain (Some silent_callback) 400 two_triangles ninety_nine_counted)
       = [1 / 28, 13 / 28]"
    by code_simp
  have quiet: "raised (scan_body stod_plain (Some silent_callback) 400 two_triangles ninety_nine_counted)
       = None"
    by code_simp
  have thr: "raised (scan_body stod_plain (Some throwing_callback) 400 two_triangles ninety_nine_counted)
       = Some StdException"
    by code_simp
  note srt = t [THEN conjunct1]
  note lst = t [THEN conjunct2, THEN conjunct2, THEN conjunct1, rule_format, OF cb, THEN conjunct2]
  note stp = t [THEN conjunct2, THEN conjunct2, THEN conjunct2, THEN conjunct2, THEN conjunct2,
      THEN conjunct1, rule_format, OF inv]
  note kept = stp [where cb = "Some silent_callback" and fs = 400,
      THEN conjunct2, THEN conjunct2, rule_format, OF quiet]
  note sth = stp [where cb = "Some throwing_callback" and fs = 400,
      THEN conjunct1]
  show ?thesis
    by (rule conjI [OF run conjI [OF srt conjI [OF lst conjI [OF inv conjI [OF rep
          conjI [OF kept conjI [OF thr sth]]]]]]])
qed

end
